theory Spec2Isabelle
  imports Complex_Main "HOL-Library.Multiset" "HOL-Library.AList"
begin

section \<open>The CF reader of TECA: a shallow embedding\<close>

text \<open>
  The development follows \<^verbatim>\<open>src/io/teca_cf_writer.cxx\<close>, the file that holds the
  NetCDF CF reader: the handle cache (\<^verbatim>\<open>teca_cf_reader_internals\<close>), the time-axis task
  (\<^verbatim>\<open>read_variable\<close>), the metadata phase (\<^verbatim>\<open>get_output_metadata\<close>) and the execute
  phase (\<^verbatim>\<open>execute\<close>). The build modelled is the one without MPI (one rank, which is
  the root rank), so the broadcast of the metadata is not part of the model. Diagnostic
  output (\<^verbatim>\<open>TECA_ERROR\<close>) is recorded only in the execute phase, where the per-array
  loop returns the errors it reported.
\<close>

subsection \<open>Unsigned 64-bit arithmetic\<close>

text \<open>
  \<^verbatim>\<open>unsigned long\<close> and \<^verbatim>\<open>size_t\<close> values are natural numbers; where the source adds,
  subtracts or multiplies them the wrap-around at \<open>2 ^ 64\<close> is written out.
\<close>

definition ulong_add :: "nat \<Rightarrow> nat \<Rightarrow> nat" where
  "ulong_add a b = (a + b) mod 2 ^ 64"

definition ulong_sub :: "nat \<Rightarrow> nat \<Rightarrow> nat" where
  "ulong_sub a b = (a + 2 ^ 64 - b mod 2 ^ 64) mod 2 ^ 64"

definition ulong_mul :: "nat \<Rightarrow> nat \<Rightarrow> nat" where
  "ulong_mul a b = (a * b) mod 2 ^ 64"

subsection \<open>The NetCDF library, as far as the reader calls it\<close>

text \<open>
  The library is external to the repository. A file is a list of dimensions (a
  dimension id is a position in the list) and a list of variables (a variable id is a
  position in the list); every variable carries its attributes and an oracle
  \<open>var_data\<close> answering a hyperslab read: \<open>None\<close> is a read error, \<open>Some g\<close> gives
  the element written at each position of the caller's buffer. The numeric payload is
  carried as a real number; the reader only stores and copies it.
\<close>

datatype nc_type =
    NC_NAT | NC_BYTE | NC_CHAR | NC_SHORT | NC_INT | NC_FLOAT | NC_DOUBLE
  | NC_UBYTE | NC_USHORT | NC_UINT | NC_INT64 | NC_UINT64 | NC_STRING

record nc_att =
  att_name :: string
  att_type :: nc_type
  att_text :: string

record nc_var =
  var_name :: string
  var_type :: nc_type
  var_dimids :: "nat list"
  var_atts :: "nc_att list"
  var_data :: "nat list \<Rightarrow> nat list \<Rightarrow> (nat \<Rightarrow> real) option"

record nc_file =
  file_dims :: "(string \<times> nat) list"
  file_vars :: "nc_var list"

text \<open>
  The state of the library: the files on disk by path, and the table of open files by
  handle. \<open>nc_open\<close> gives a handle that no open file has, and never the handle \<open>0\<close>.
\<close>

record nc_world =
  nc_disk :: "string \<Rightarrow> nc_file option"
  nc_table :: "(nat \<times> nc_file) list"

definition nc_open :: "nc_world \<Rightarrow> string \<Rightarrow> (nat \<times> nc_world) option" where
  "nc_open w file_path =
     (case nc_disk w file_path of
        None \<Rightarrow> None
      | Some f \<Rightarrow>
          Some (Suc (fold max (map fst (nc_table w)) 0),
                w\<lparr>nc_table := (Suc (fold max (map fst (nc_table w)) 0), f) # nc_table w\<rparr>))"

definition nc_close :: "nc_world \<Rightarrow> nat \<Rightarrow> nc_world" where
  "nc_close w ncid = w\<lparr>nc_table := filter (\<lambda>e. fst e \<noteq> ncid) (nc_table w)\<rparr>"

definition nc_file_of :: "nc_world \<Rightarrow> nat \<Rightarrow> nc_file option" where
  "nc_file_of w ncid = map_of (nc_table w) ncid"

definition nc_var_of :: "nc_world \<Rightarrow> nat \<Rightarrow> nat \<Rightarrow> nc_var option" where
  "nc_var_of w ncid varid =
     (case nc_file_of w ncid of
        None \<Rightarrow> None
      | Some f \<Rightarrow> if varid < length (file_vars f) then Some (file_vars f ! varid) else None)"

fun index_of :: "('a \<Rightarrow> bool) \<Rightarrow> 'a list \<Rightarrow> nat option" where
  "index_of P [] = None"
| "index_of P (x # xs) = (if P x then Some 0 else map_option Suc (index_of P xs))"

definition nc_inq_dimid :: "nc_world \<Rightarrow> nat \<Rightarrow> string \<Rightarrow> nat option" where
  "nc_inq_dimid w ncid name =
     (case nc_file_of w ncid of
        None \<Rightarrow> None
      | Some f \<Rightarrow> index_of (\<lambda>d. fst d = name) (file_dims f))"

definition nc_inq_dim :: "nc_world \<Rightarrow> nat \<Rightarrow> nat \<Rightarrow> (string \<times> nat) option" where
  "nc_inq_dim w ncid dimid =
     (case nc_file_of w ncid of
        None \<Rightarrow> None
      | Some f \<Rightarrow> if dimid < length (file_dims f) then Some (file_dims f ! dimid) else None)"

definition nc_inq_dimlen :: "nc_world \<Rightarrow> nat \<Rightarrow> nat \<Rightarrow> nat option" where
  "nc_inq_dimlen w ncid dimid = map_option snd (nc_inq_dim w ncid dimid)"

definition nc_inq_varid :: "nc_world \<Rightarrow> nat \<Rightarrow> string \<Rightarrow> nat option" where
  "nc_inq_varid w ncid name =
     (case nc_file_of w ncid of
        None \<Rightarrow> None
      | Some f \<Rightarrow> index_of (\<lambda>v. var_name v = name) (file_vars f))"

definition nc_inq_vartype :: "nc_world \<Rightarrow> nat \<Rightarrow> nat \<Rightarrow> nc_type option" where
  "nc_inq_vartype w ncid varid = map_option var_type (nc_var_of w ncid varid)"

definition nc_inq_nvars :: "nc_world \<Rightarrow> nat \<Rightarrow> nat option" where
  "nc_inq_nvars w ncid = map_option (\<lambda>f. length (file_vars f)) (nc_file_of w ncid)"

text \<open>\<open>nc_inq_var\<close> gives the name, the type, the dimension ids and the number of
  attributes of a variable (the number of dimensions is the length of the id list).\<close>

definition nc_inq_var ::
  "nc_world \<Rightarrow> nat \<Rightarrow> nat \<Rightarrow> (string \<times> nc_type \<times> nat list \<times> nat) option" where
  "nc_inq_var w ncid varid =
     map_option (\<lambda>v. (var_name v, var_type v, var_dimids v, length (var_atts v)))
       (nc_var_of w ncid varid)"

definition nc_inq_attname :: "nc_world \<Rightarrow> nat \<Rightarrow> nat \<Rightarrow> nat \<Rightarrow> string option" where
  "nc_inq_attname w ncid varid attnum =
     (case nc_var_of w ncid varid of
        None \<Rightarrow> None
      | Some v \<Rightarrow>
          if attnum < length (var_atts v) then Some (att_name (var_atts v ! attnum)) else None)"

definition nc_att_of :: "nc_world \<Rightarrow> nat \<Rightarrow> nat \<Rightarrow> string \<Rightarrow> nc_att option" where
  "nc_att_of w ncid varid name =
     (case nc_var_of w ncid varid of
        None \<Rightarrow> None
      | Some v \<Rightarrow> find (\<lambda>a. att_name a = name) (var_atts v))"

text \<open>The length of an attribute is the number of its characters.\<close>

definition nc_inq_att :: "nc_world \<Rightarrow> nat \<Rightarrow> nat \<Rightarrow> string \<Rightarrow> (nc_type \<times> nat) option" where
  "nc_inq_att w ncid varid name =
     map_option (\<lambda>a. (att_type a, length (att_text a))) (nc_att_of w ncid varid name)"

definition nc_get_att_text :: "nc_world \<Rightarrow> nat \<Rightarrow> nat \<Rightarrow> string \<Rightarrow> string option" where
  "nc_get_att_text w ncid varid name = map_option att_text (nc_att_of w ncid varid name)"

definition nc_get_vara ::
  "nc_world \<Rightarrow> nat \<Rightarrow> nat \<Rightarrow> nat list \<Rightarrow> nat list \<Rightarrow> (nat \<Rightarrow> real) option" where
  "nc_get_vara w ncid varid start cnt =
     (case nc_var_of w ncid varid of None \<Rightarrow> None | Some v \<Rightarrow> var_data v start cnt)"

text \<open>The two type dispatches of the source, \<^verbatim>\<open>NC_DISPATCH_FP\<close> and \<^verbatim>\<open>NC_DISPATCH\<close>:
  the type codes that have a case; every other code takes the \<^verbatim>\<open>default\<close> branch, which
  reports an error and leaves the \<^verbatim>\<open>switch\<close>.\<close>

fun nc_dispatch_fp :: "nc_type \<Rightarrow> bool" where
  "nc_dispatch_fp NC_FLOAT = True"
| "nc_dispatch_fp NC_DOUBLE = True"
| "nc_dispatch_fp _ = False"

fun nc_dispatch :: "nc_type \<Rightarrow> bool" where
  "nc_dispatch NC_BYTE = True"
| "nc_dispatch NC_UBYTE = True"
| "nc_dispatch NC_CHAR = True"
| "nc_dispatch NC_SHORT = True"
| "nc_dispatch NC_USHORT = True"
| "nc_dispatch NC_INT = True"
| "nc_dispatch NC_UINT = True"
| "nc_dispatch NC_INT64 = True"
| "nc_dispatch NC_UINT64 = True"
| "nc_dispatch NC_FLOAT = True"
| "nc_dispatch NC_DOUBLE = True"
| "nc_dispatch _ = False"

subsection \<open>Variant arrays and metadata bags\<close>

datatype teca_error =
    KindMismatch | OutOfBounds | MetadataMissing | DimensionMismatch
  | HyperslabReadFailed | UnsupportedKind

text \<open>
  Modelled from the spec: the class \<^verbatim>\<open>teca_variant_array\<close> is not among the sources. A
  variant array is a typed buffer: its element kind and its elements. \<open>va_new\<close> is the
  construction at a length (default-valued elements), \<open>va_fill\<close> is what a library read
  into the raw buffer leaves, \<open>va_append\<close> is the in-order append, which requires the
  same kind and fails with \<open>KindMismatch\<close> otherwise, and \<open>va_new_copy\<close> is the
  sliced copy over an inclusive index range, which fails with \<open>OutOfBounds\<close> when the
  upper index is not below the size or the lower index is above the upper one.
\<close>

record variant_array =
  va_kind :: nc_type
  va_data :: "real list"

definition va_new :: "nc_type \<Rightarrow> nat \<Rightarrow> variant_array" where
  "va_new k n = \<lparr>va_kind = k, va_data = replicate n 0\<rparr>"

definition va_size :: "variant_array \<Rightarrow> nat" where
  "va_size a = length (va_data a)"

definition va_fill :: "variant_array \<Rightarrow> (nat \<Rightarrow> real) \<Rightarrow> variant_array" where
  "va_fill a g = a\<lparr>va_data := map g [0..<length (va_data a)]\<rparr>"

definition va_append :: "variant_array \<Rightarrow> variant_array \<Rightarrow> teca_error + variant_array" where
  "va_append a b =
     (if va_kind a = va_kind b then Inr (a\<lparr>va_data := va_data a @ va_data b\<rparr>)
      else Inl KindMismatch)"

definition va_new_copy :: "variant_array \<Rightarrow> nat \<Rightarrow> nat \<Rightarrow> teca_error + variant_array" where
  "va_new_copy a lo hi =
     (if length (va_data a) \<le> hi then Inl OutOfBounds
      else if hi < lo then Inl OutOfBounds
      else Inr (a\<lparr>va_data := take (Suc hi - lo) (drop lo (va_data a))\<rparr>))"

text \<open>
  Modelled from the spec: the class \<^verbatim>\<open>teca_metadata\<close> is not among the sources. A
  metadata bag maps a string key to a value or to a nested bag; keys are unique, an
  insertion under a present key replaces the value, and every lookup extracts a value of
  the type asked for or fails. A value set from a null array pointer is \<open>MArray None\<close>.
\<close>

datatype md_value =
    MString "string list"
  | MULong "nat list"
  | MInt "nat list"
  | MType nc_type
  | MArray "variant_array option"
  | MBag "(string \<times> md_value) list"

type_synonym teca_metadata = "(string \<times> md_value) list"

definition md_insert :: "string \<Rightarrow> md_value \<Rightarrow> teca_metadata \<Rightarrow> teca_metadata" where
  "md_insert k v md = AList.update k v md"

definition md_get_bag :: "teca_metadata \<Rightarrow> string \<Rightarrow> teca_metadata option" where
  "md_get_bag md k = (case map_of md k of Some (MBag b) \<Rightarrow> Some b | _ \<Rightarrow> None)"

definition md_get_array :: "teca_metadata \<Rightarrow> string \<Rightarrow> variant_array option" where
  "md_get_array md k = (case map_of md k of Some (MArray a) \<Rightarrow> a | _ \<Rightarrow> None)"

definition md_get_ulongs :: "teca_metadata \<Rightarrow> string \<Rightarrow> nat list option" where
  "md_get_ulongs md k = (case map_of md k of Some (MULong vs) \<Rightarrow> Some vs | _ \<Rightarrow> None)"

definition md_get_ulong :: "teca_metadata \<Rightarrow> string \<Rightarrow> nat option" where
  "md_get_ulong md k = (case map_of md k of Some (MULong (v # vs)) \<Rightarrow> Some v | _ \<Rightarrow> None)"

definition md_get_ulong_n :: "teca_metadata \<Rightarrow> string \<Rightarrow> nat \<Rightarrow> nat list option" where
  "md_get_ulong_n md k n =
     (case map_of md k of
        Some (MULong vs) \<Rightarrow> if n \<le> length vs then Some (take n vs) else None
      | _ \<Rightarrow> None)"

definition md_get_strings :: "teca_metadata \<Rightarrow> string \<Rightarrow> string list option" where
  "md_get_strings md k = (case map_of md k of Some (MString vs) \<Rightarrow> Some vs | _ \<Rightarrow> None)"

definition md_get_string_at :: "teca_metadata \<Rightarrow> string \<Rightarrow> nat \<Rightarrow> string option" where
  "md_get_string_at md k i =
     (case map_of md k of
        Some (MString vs) \<Rightarrow> if i < length vs then Some (vs ! i) else None
      | _ \<Rightarrow> None)"

definition md_get_string :: "teca_metadata \<Rightarrow> string \<Rightarrow> string option" where
  "md_get_string md k = md_get_string_at md k 0"

definition md_get_type :: "teca_metadata \<Rightarrow> string \<Rightarrow> nc_type option" where
  "md_get_type md k = (case map_of md k of Some (MType t) \<Rightarrow> Some t | _ \<Rightarrow> None)"

definition md_get_int :: "teca_metadata \<Rightarrow> string \<Rightarrow> nat option" where
  "md_get_int md k = (case map_of md k of Some (MInt (v # vs)) \<Rightarrow> Some v | _ \<Rightarrow> None)"

subsection \<open>Trimming character attributes: \<^verbatim>\<open>crtrim\<close>\<close>

text \<open>
  The buffer is the list of its characters, the terminating NUL included. The counter
  \<open>n\<close> is a \<^verbatim>\<open>long\<close>; it is decremented only while positive, so it is a natural
  number here. A null buffer is \<open>None\<close>.
\<close>

definition NUL :: char where
  "NUL = CHR 0x00"

definition is_blank :: "char \<Rightarrow> bool" where
  "is_blank c = (c = CHR '' '' \<or> c = CHR 0x0A \<or> c = CHR 0x09 \<or> c = CHR 0x0D)"

fun crtrim_loop :: "char list \<Rightarrow> nat \<Rightarrow> char \<Rightarrow> char list" where
  "crtrim_loop s 0 c = s"
| "crtrim_loop s (Suc m) c =
     (if is_blank c then crtrim_loop (s[Suc m := NUL]) m ((s[Suc m := NUL]) ! m) else s)"

definition crtrim :: "char list option \<Rightarrow> nat \<Rightarrow> char list option" where
  "crtrim s n =
     (case s of
        None \<Rightarrow> None
      | Some b \<Rightarrow> if n = 0 then Some b else Some (crtrim_loop b (n - 1) (b ! (n - 1))))"

text \<open>\<^verbatim>\<open>std::string(buffer)\<close>: the characters before the first NUL.\<close>

definition c_string :: "char list \<Rightarrow> string" where
  "c_string b = takeWhile (\<lambda>c. c \<noteq> NUL) b"

text \<open>
  The string the metadata phase stores for a character attribute of text \<open>txt\<close>: the
  buffer of \<open>att_len + 1\<close> characters gets the NUL at \<open>att_len\<close> and the text in front
  of it, is trimmed with the length \<open>att_len\<close>, and is read as a C string.
\<close>

definition att_string :: "string \<Rightarrow> string" where
  "att_string txt =
     (case crtrim (Some (txt @ [NUL])) (length txt) of
        None \<Rightarrow> []
      | Some b \<Rightarrow> c_string b)"

text \<open>The right trim the attribute handling is meant to be: every trailing blank,
  newline, tab and carriage return removed.\<close>

definition right_trim :: "string \<Rightarrow> string" where
  "right_trim txt = rev (dropWhile is_blank (rev txt))"

subsection \<open>The reader and its handle cache\<close>

text \<open>
  The reader: its configuration properties and its internals, the cached metadata and
  the handle map. An entry of the map is a per-file mutex and a handle, either of which
  may be null; the map is kept as a list of entries with distinct keys. The state the
  functions below pass along is the reader together with the state of the library.
\<close>

datatype mutex = Mutex

record netcdf_handle =
  m_handle :: nat

type_synonym handle_map_elem = "mutex option \<times> netcdf_handle option"

record teca_cf_reader =
  files_regex :: string
  file_name :: string
  x_axis_variable :: string
  y_axis_variable :: string
  z_axis_variable :: string
  t_axis_variable :: string
  thread_pool_size :: int
  metadata :: teca_metadata
  handles :: "(string \<times> handle_map_elem) list"

type_synonym sys = "teca_cf_reader \<times> nc_world"

text \<open>The constructor: the default configuration, no metadata, no handles.\<close>

definition new_teca_cf_reader :: teca_cf_reader where
  "new_teca_cf_reader =
     \<lparr>files_regex = [], file_name = [], x_axis_variable = ''lon'',
      y_axis_variable = ''lat'', z_axis_variable = [], t_axis_variable = ''time'',
      thread_pool_size = - 1, metadata = [], handles = []\<rparr>"

text \<open>\<^verbatim>\<open>netcdf_handle::close\<close>, run by the destructor: a handle other than \<open>0\<close> is
  closed in the library. Deleting a null pointer does nothing.\<close>

definition delete_handle :: "netcdf_handle option \<Rightarrow> nc_world \<Rightarrow> nc_world" where
  "delete_handle p w =
     (case p of
        None \<Rightarrow> w
      | Some h \<Rightarrow> if m_handle h = 0 then w else nc_close w (m_handle h))"

text \<open>The loop of \<^verbatim>\<open>close_handles\<close>: every handle is deleted and its pointer set to
  null; the mutexes stay.\<close>

fun close_loop ::
  "(string \<times> handle_map_elem) list \<Rightarrow> nc_world \<Rightarrow> (string \<times> handle_map_elem) list \<times> nc_world"
  where
  "close_loop [] w = ([], w)"
| "close_loop ((k, (m, h)) # es) w =
     (case close_loop es (delete_handle h w) of
        (es', w') \<Rightarrow> ((k, (m, None)) # es', w'))"

definition close_handles :: "sys \<Rightarrow> sys" where
  "close_handles s =
     (case s of (r, w) \<Rightarrow>
        (case close_loop (handles r) w of (es, w') \<Rightarrow> (r\<lparr>handles := es\<rparr>, w')))"

text \<open>The loop of \<^verbatim>\<open>clear_handles\<close>: every handle is deleted, both pointers of the
  entry are set to null; then the map is emptied.\<close>

fun clear_loop ::
  "(string \<times> handle_map_elem) list \<Rightarrow> nc_world \<Rightarrow> (string \<times> handle_map_elem) list \<times> nc_world"
  where
  "clear_loop [] w = ([], w)"
| "clear_loop ((k, (m, h)) # es) w =
     (case clear_loop es (delete_handle h w) of
        (es', w') \<Rightarrow> ((k, (None, None)) # es', w'))"

definition clear_handles :: "sys \<Rightarrow> sys" where
  "clear_handles s =
     (case s of (r, w) \<Rightarrow>
        (case clear_loop (handles r) w of (es, w') \<Rightarrow> (r\<lparr>handles := []\<rparr>, w')))"

fun insert_entries ::
  "string list \<Rightarrow> (string \<times> handle_map_elem) list \<Rightarrow> (string \<times> handle_map_elem) list" where
  "insert_entries [] es = es"
| "insert_entries (f # fs) es = insert_entries fs (AList.update f (Some Mutex, None) es)"

definition initialize_handles :: "string list \<Rightarrow> sys \<Rightarrow> sys" where
  "initialize_handles files s =
     (case clear_handles s of (r, w) \<Rightarrow> (r\<lparr>handles := insert_entries files (handles r)\<rparr>, w))"

text \<open>
  \<^verbatim>\<open>close_handle\<close> and \<^verbatim>\<open>get_handle\<close>. A name that is not in the map is the error
  return of the \<^verbatim>\<open>TECA_DEBUG\<close> build (without it the source dereferences the end
  iterator); the callers in this file only ask for names that \<open>initialize_handles\<close>
  inserted. The result is the value returned (\<open>0\<close> is success) and the new state.
\<close>

definition close_handle :: "string \<Rightarrow> sys \<Rightarrow> int \<times> sys" where
  "close_handle file s =
     (case s of (r, w) \<Rightarrow>
        (case map_of (handles r) file of
           None \<Rightarrow> (- 1, s)
         | Some (m, h) \<Rightarrow>
             (0, (r\<lparr>handles := AList.update file (m, None) (handles r)\<rparr>, delete_handle h w))))"

definition PATH_SEP :: string where
  "PATH_SEP = ''/''"

text \<open>\<open>get_handle\<close> gives the handle and the per-file mutex on success.\<close>

definition get_handle ::
  "string \<Rightarrow> string \<Rightarrow> sys \<Rightarrow> (nat \<times> mutex option) option \<times> sys" where
  "get_handle path file s =
     (case s of (r, w) \<Rightarrow>
        (case map_of (handles r) file of
           None \<Rightarrow> (None, s)
         | Some (m, Some h) \<Rightarrow> (Some (m_handle h, m), s)
         | Some (m, None) \<Rightarrow>
             (case nc_open w (path @ PATH_SEP @ file) of
                None \<Rightarrow> (None, s)
              | Some (file_id, w') \<Rightarrow>
                  (Some (file_id, m),
                   (r\<lparr>handles := AList.update file (m, Some \<lparr>m_handle = file_id\<rparr>) (handles r)\<rparr>,
                    w')))))"

text \<open>\<^verbatim>\<open>clear_cached_metadata\<close> and \<^verbatim>\<open>set_modified\<close>. The call of the base class,
  \<^verbatim>\<open>teca_algorithm::set_modified\<close>, works on the state of the base class, which the
  reader record does not carry.\<close>

definition clear_cached_metadata :: "sys \<Rightarrow> sys" where
  "clear_cached_metadata s = (case s of (r, w) \<Rightarrow> clear_handles (r\<lparr>metadata := []\<rparr>, w))"

definition set_modified :: "sys \<Rightarrow> sys" where
  "set_modified s = clear_cached_metadata s"

subsection \<open>The time-axis task: \<^verbatim>\<open>read_variable\<close>\<close>

text \<open>The four queries of a coordinate variable, in the order of the source: the
  dimension of that name, its length, the variable of that name, its type. The result
  is the variable id, the length and the type.\<close>

definition query_variable :: "nc_world \<Rightarrow> nat \<Rightarrow> string \<Rightarrow> (nat \<times> nat \<times> nc_type) option" where
  "query_variable w file_id name =
     (case nc_inq_dimid w file_id name of
        None \<Rightarrow> None
      | Some dim_id \<Rightarrow>
          (case nc_inq_dimlen w file_id dim_id of
             None \<Rightarrow> None
           | Some v_size \<Rightarrow>
               (case nc_inq_varid w file_id name of
                  None \<Rightarrow> None
                | Some v_id \<Rightarrow>
                    (case nc_inq_vartype w file_id v_id of
                       None \<Rightarrow> None
                     | Some v_type \<Rightarrow> Some (v_id, v_size, v_type)))))"

text \<open>The task's result is the file index and the array, null on every failure. Every
  path after a successful \<open>get_handle\<close> closes the handle again.\<close>

definition read_variable ::
  "string \<Rightarrow> string \<Rightarrow> nat \<Rightarrow> string \<Rightarrow> sys \<Rightarrow> (nat \<times> variant_array option) \<times> sys" where
  "read_variable m_path m_file m_id m_variable s =
     (case get_handle m_path m_file s of
        (None, s1) \<Rightarrow> ((m_id, None), s1)
      | (Some (file_id, file_mutex), s1) \<Rightarrow>
          (case query_variable (snd s1) file_id m_variable of
             None \<Rightarrow> ((m_id, None), snd (close_handle m_file s1))
           | Some (v_id, v_size, v_type) \<Rightarrow>
               if nc_dispatch_fp v_type then
                 (case nc_get_vara (snd s1) file_id v_id [0] [v_size] of
                    None \<Rightarrow> ((m_id, None), snd (close_handle m_file s1))
                  | Some g \<Rightarrow>
                      ((m_id, Some (va_fill (va_new v_type v_size) g)),
                       snd (close_handle m_file s1)))
               else ((m_id, None), snd (close_handle m_file s1))))"

text \<open>
  The worker pool is not among the sources. The tasks are run one after the other in
  the order \<open>ord\<close> in which they complete, a list of file indices, and \<^verbatim>\<open>wait_data\<close>
  gives their results in that order.
\<close>

fun run_tasks ::
  "string \<Rightarrow> string list \<Rightarrow> string \<Rightarrow> nat list \<Rightarrow> sys \<Rightarrow> (nat \<times> variant_array option) list \<times> sys"
  where
  "run_tasks path files variable [] s = ([], s)"
| "run_tasks path files variable (i # ord) s =
     (case read_variable path (files ! i) i variable s of
        (d, s1) \<Rightarrow>
          (case run_tasks path files variable ord s1 of
             (ds, s2) \<Rightarrow> (d # ds, s2)))"

subsection \<open>Assembling the time axis\<close>

text \<open>
  \<open>time_arrays\<close> is the map built from the vector of results: of two results with
  the same index the first is kept, and the subscript operator gives a null pointer
  for an index that has no result. Dereferencing a null pointer is the result
  \<open>T_null_deref\<close>; a failing append leaves the function with its error.
\<close>

definition time_arrays :: "(nat \<times> variant_array option) list \<Rightarrow> nat \<Rightarrow> variant_array option" where
  "time_arrays tmp i = (case map_of tmp i of None \<Rightarrow> None | Some p \<Rightarrow> p)"

datatype time_result =
    T_ok "variant_array option" "nat list"
  | T_failed
  | T_null_deref
  | T_raised teca_error

function append_loop ::
  "(nat \<times> variant_array option) list \<Rightarrow> nat \<Rightarrow> nat \<Rightarrow> variant_array \<Rightarrow> nat list \<Rightarrow> time_result"
  where
  "append_loop tmp n_files i t_axis step_count =
     (if i < n_files then
        (case time_arrays tmp i of
           None \<Rightarrow> T_null_deref
         | Some a \<Rightarrow>
             (case va_append t_axis a of
                Inl e \<Rightarrow> T_raised e
              | Inr t' \<Rightarrow> append_loop tmp n_files (Suc i) t' (step_count @ [va_size a])))
      else T_ok (Some t_axis) step_count)"
  by pat_completeness auto
termination
  by (relation "measure (\<lambda>(tmp, n_files, i, t_axis, step_count). n_files - i)") auto

definition assemble_time_axis :: "nat \<Rightarrow> (nat \<times> variant_array option) list \<Rightarrow> time_result" where
  "assemble_time_axis n_files tmp =
     (case time_arrays tmp 0 of
        None \<Rightarrow> T_failed
      | Some t_axis \<Rightarrow> append_loop tmp n_files 1 t_axis [va_size t_axis])"

subsection \<open>The metadata phase: \<^verbatim>\<open>get_output_metadata\<close>\<close>

text \<open>
  The helpers of \<^verbatim>\<open>teca_file_util\<close> are not among the sources; they are parameters of
  the model: the directory part and the file part of a path, and the search of a
  directory for the files matching a regular expression, which fails or gives the list
  of the files found.
\<close>

record file_util =
  fu_path :: "string \<Rightarrow> string"
  fu_filename :: "string \<Rightarrow> string"
  fu_locate_files :: "string \<Rightarrow> string \<Rightarrow> string list option"

definition enumerate_files :: "file_util \<Rightarrow> teca_cf_reader \<Rightarrow> (string \<times> string list) option" where
  "enumerate_files fu r =
     (if file_name r = [] then
        map_option (\<lambda>fs. (fu_path fu (files_regex r), fs))
          (fu_locate_files fu (fu_path fu (files_regex r)) (fu_filename fu (files_regex r)))
      else Some (fu_path fu (file_name r), [fu_filename fu (file_name r)]))"

text \<open>An axis that is not configured keeps the initial values of the source: id \<open>0\<close>,
  length \<open>1\<close>, type code \<open>0\<close>.\<close>

definition query_optional :: "nc_world \<Rightarrow> nat \<Rightarrow> string \<Rightarrow> (nat \<times> nat \<times> nc_type) option" where
  "query_optional w file_id name =
     (if name = [] then Some (0, 1, NC_NAT) else query_variable w file_id name)"

text \<open>The dimensions of a variable: the loop over its dimension ids, giving the size
  and the name of each, or \<open>None\<close> when a query fails.\<close>

fun read_dims :: "nc_world \<Rightarrow> nat \<Rightarrow> nat list \<Rightarrow> (nat \<times> string) list option" where
  "read_dims w file_id [] = Some []"
| "read_dims w file_id (d # ds) =
     (case nc_inq_dim w file_id d of
        None \<Rightarrow> None
      | Some (d_name, d_len) \<Rightarrow>
          (case read_dims w file_id ds of
             None \<Rightarrow> None
           | Some rest \<Rightarrow> Some ((d_len, d_name) # rest)))"

text \<open>The attributes of a variable: the loop over the attribute numbers. A character
  attribute is read into the buffer, trimmed and inserted under its name. The text of
  an attribute whose length was just queried is read without a check in the source; it
  is the text of that attribute.\<close>

fun read_atts :: "nc_world \<Rightarrow> nat \<Rightarrow> nat \<Rightarrow> nat list \<Rightarrow> teca_metadata \<Rightarrow> teca_metadata option"
  where
  "read_atts w file_id i [] atts = Some atts"
| "read_atts w file_id i (ii # rest) atts =
     (case nc_inq_attname w file_id i ii of
        None \<Rightarrow> None
      | Some a_name \<Rightarrow>
          (case nc_inq_att w file_id i a_name of
             None \<Rightarrow> None
           | Some (a_type, a_len) \<Rightarrow>
               if a_type = NC_CHAR then
                 (case nc_get_att_text w file_id i a_name of
                    None \<Rightarrow> None
                  | Some txt \<Rightarrow>
                      read_atts w file_id i rest
                        (md_insert a_name (MString [att_string txt]) atts))
               else read_atts w file_id i rest atts))"

text \<open>The loop over the variables of the first file; the accumulator is the list of
  variable names, the bag of per-variable attribute bags and the list of time
  variables.\<close>

fun read_vars ::
  "nc_world \<Rightarrow> nat \<Rightarrow> string \<Rightarrow> nat list \<Rightarrow> string list \<times> teca_metadata \<times> string list \<Rightarrow>
     (string list \<times> teca_metadata \<times> string list) option" where
  "read_vars w file_id t_var [] acc = Some acc"
| "read_vars w file_id t_var (i # rest) (vars, atrs, time_vars) =
     (case nc_inq_var w file_id i of
        None \<Rightarrow> None
      | Some (v_name, v_type, dim_id, n_atts) \<Rightarrow>
          if dim_id = [] then read_vars w file_id t_var rest (vars, atrs, time_vars)
          else
            (case read_dims w file_id dim_id of
               None \<Rightarrow> None
             | Some ds \<Rightarrow>
                 (case read_atts w file_id i [0..<n_atts]
                         (md_insert ''centering'' (MString [''point''])
                           (md_insert ''type'' (MType v_type)
                             (md_insert ''dim_names'' (MString (map snd ds))
                               (md_insert ''dims'' (MULong (map fst ds))
                                 (md_insert ''id'' (MInt [i]) []))))) of
                    None \<Rightarrow> None
                  | Some atts \<Rightarrow>
                      read_vars w file_id t_var rest
                        (vars @ [v_name],
                         md_insert v_name (MBag atts) atrs,
                         if length dim_id = 1 \<and> map snd ds ! 0 = t_var
                         then time_vars @ [v_name] else time_vars))))"

definition enumerate_variables ::
  "nc_world \<Rightarrow> nat \<Rightarrow> string \<Rightarrow> (string list \<times> teca_metadata \<times> string list) option" where
  "enumerate_variables w file_id t_var =
     (case nc_inq_nvars w file_id of
        None \<Rightarrow> None
      | Some n_vars \<Rightarrow> read_vars w file_id t_var [0..<n_vars] ([], [], []))"

text \<open>
  Reading a coordinate axis under \<^verbatim>\<open>NC_DISPATCH_FP\<close>: \<open>None\<close> is the failed read (the
  phase is abandoned), \<open>Some None\<close> is the null array that the \<^verbatim>\<open>default\<close> branch of
  the dispatch leaves, and \<open>Some (Some a)\<close> is the array read. \<open>default_axis\<close> is the
  one-element array of an axis that is not configured, dispatched on the type of the x
  axis.
\<close>

definition va_set :: "variant_array \<Rightarrow> nat \<Rightarrow> real \<Rightarrow> variant_array" where
  "va_set a i v = a\<lparr>va_data := (va_data a)[i := v]\<rparr>"

definition read_axis ::
  "nc_world \<Rightarrow> nat \<Rightarrow> nc_type \<Rightarrow> nat \<Rightarrow> nat \<Rightarrow> variant_array option option" where
  "read_axis w file_id a_t a_id n =
     (if nc_dispatch_fp a_t then
        (case nc_get_vara w file_id a_id [0] [n] of
           None \<Rightarrow> None
         | Some g \<Rightarrow> Some (Some (va_fill (va_new a_t n) g)))
      else Some None)"

definition default_axis :: "nc_type \<Rightarrow> variant_array option" where
  "default_axis x_t = (if nc_dispatch_fp x_t then Some (va_set (va_new x_t 1) 0 0) else None)"

definition read_optional_axis ::
  "nc_world \<Rightarrow> nat \<Rightarrow> string \<Rightarrow> nc_type \<Rightarrow> nat \<Rightarrow> nat \<Rightarrow> nc_type \<Rightarrow> variant_array option option"
  where
  "read_optional_axis w file_id name a_t a_id n x_t =
     (if name = [] then Some (default_axis x_t) else read_axis w file_id a_t a_id n)"

text \<open>The time axis and the step counts: from the tasks when the time variable is
  configured, and otherwise one step and the one-element default array.\<close>

definition read_time_axis ::
  "teca_cf_reader \<Rightarrow> string \<Rightarrow> string list \<Rightarrow> nat list \<Rightarrow> nc_type \<Rightarrow> sys \<Rightarrow> time_result \<times> sys"
  where
  "read_time_axis r path files ord x_t s =
     (if t_axis_variable r = [] then (T_ok (default_axis x_t) [1], s)
      else
        (case run_tasks path files (t_axis_variable r) ord s of
           (tmp, s') \<Rightarrow> (assemble_time_axis (length files) tmp, s')))"

text \<open>The \<open>coordinates\<close> bag and the whole extent, as the source fills them.\<close>

definition coordinates_bag ::
  "teca_cf_reader \<Rightarrow> variant_array option \<Rightarrow> variant_array option \<Rightarrow> variant_array option \<Rightarrow>
     variant_array option \<Rightarrow> teca_metadata" where
  "coordinates_bag r x_axis y_axis z_axis t_axis =
     md_insert ''t'' (MArray t_axis)
       (md_insert ''z'' (MArray z_axis)
         (md_insert ''y'' (MArray y_axis)
           (md_insert ''x'' (MArray x_axis)
             (md_insert ''t_variable''
                (MString [if z_axis_variable r = [] then ''t'' else z_axis_variable r])
               (md_insert ''z_variable''
                  (MString [if z_axis_variable r = [] then ''z'' else z_axis_variable r])
                 (md_insert ''y_variable''
                    (MString [if z_axis_variable r = [] then ''y'' else z_axis_variable r])
                   (md_insert ''x_variable'' (MString [x_axis_variable r]) [])))))))"

definition whole_extent_of :: "nat \<Rightarrow> nat \<Rightarrow> nat \<Rightarrow> nat list" where
  "whole_extent_of n_x n_y n_z =
     (((replicate 6 0)[1 := ulong_sub n_x 1])[3 := ulong_sub n_y 1])[5 := ulong_sub n_z 1]"

datatype md_result =
    Returned teca_metadata sys
  | Raised teca_error
  | Undefined_behaviour

text \<open>The last inserts. The number of time steps is the size of the time axis, asked
  of the array without a check: a null time axis is undefined behaviour.\<close>

definition finish_metadata ::
  "teca_cf_reader \<Rightarrow> string \<Rightarrow> string list \<Rightarrow> nat \<Rightarrow> nat \<Rightarrow> nat \<Rightarrow> variant_array option \<Rightarrow>
     variant_array option \<Rightarrow> variant_array option \<Rightarrow> variant_array option \<Rightarrow> nat list \<Rightarrow> sys \<Rightarrow>
     md_result" where
  "finish_metadata cfg path files n_x n_y n_z x_axis y_axis z_axis t_axis step_count s =
     (case t_axis of
        None \<Rightarrow> Undefined_behaviour
      | Some t \<Rightarrow>
          Returned
            (md_insert ''number_of_time_steps'' (MULong [va_size t])
              (md_insert ''step_count'' (MULong step_count)
                (md_insert ''root'' (MString [path])
                  (md_insert ''files'' (MString files)
                    (md_insert ''coordinates''
                       (MBag (coordinates_bag cfg x_axis y_axis z_axis t_axis))
                      (md_insert ''whole_extent'' (MULong (whole_extent_of n_x n_y n_z))
                        (metadata (fst s))))))))
            ((fst s)\<lparr>metadata :=
               md_insert ''number_of_time_steps'' (MULong [va_size t])
                 (md_insert ''step_count'' (MULong step_count)
                   (md_insert ''root'' (MString [path])
                     (md_insert ''files'' (MString files)
                       (md_insert ''coordinates''
                          (MBag (coordinates_bag cfg x_axis y_axis z_axis t_axis))
                         (md_insert ''whole_extent'' (MULong (whole_extent_of n_x n_y n_z))
                           (metadata (fst s)))))))\<rparr>,
             snd s))"

text \<open>
  The part of the phase that works on the first file, opened as \<open>file_id\<close>: the
  queries of the axes, the enumeration of the variables, the three inserts into the
  cached metadata, the reads of the spatial axes, the time axis and the last inserts.
  Every failure before the time axis clears the cached metadata and the handle cache and
  returns the empty bag; a null first time array returns the empty bag and clears
  nothing.
\<close>

definition parse_dataset ::
  "string \<Rightarrow> string list \<Rightarrow> nat list \<Rightarrow> nat \<Rightarrow> sys \<Rightarrow> md_result" where
  "parse_dataset path files ord file_id s =
     (case query_variable (snd s) file_id (x_axis_variable (fst s)) of
        None \<Rightarrow> Returned [] (clear_cached_metadata s)
      | Some (x_id, n_x, x_t) \<Rightarrow>
     (case query_optional (snd s) file_id (y_axis_variable (fst s)) of
        None \<Rightarrow> Returned [] (clear_cached_metadata s)
      | Some (y_id, n_y, y_t) \<Rightarrow>
     (case query_optional (snd s) file_id (z_axis_variable (fst s)) of
        None \<Rightarrow> Returned [] (clear_cached_metadata s)
      | Some (z_id, n_z, z_t) \<Rightarrow>
     (case enumerate_variables (snd s) file_id (t_axis_variable (fst s)) of
        None \<Rightarrow> Returned [] (clear_cached_metadata s)
      | Some (vars, atrs, time_vars) \<Rightarrow>
     (case ((fst s)\<lparr>metadata :=
               md_insert ''time variables'' (MString time_vars)
                 (md_insert ''attributes'' (MBag atrs)
                   (md_insert ''variables'' (MString vars) (metadata (fst s))))\<rparr>,
            snd s) of
        s3 \<Rightarrow>
     (case read_axis (snd s) file_id x_t x_id n_x of
        None \<Rightarrow> Returned [] (clear_cached_metadata s3)
      | Some x_axis \<Rightarrow>
     (case read_optional_axis (snd s) file_id (y_axis_variable (fst s)) y_t y_id n_y x_t of
        None \<Rightarrow> Returned [] (clear_cached_metadata s3)
      | Some y_axis \<Rightarrow>
     (case read_optional_axis (snd s) file_id (z_axis_variable (fst s)) z_t z_id n_z x_t of
        None \<Rightarrow> Returned [] (clear_cached_metadata s3)
      | Some z_axis \<Rightarrow>
     (case read_time_axis (fst s) path files ord x_t s3 of
        (T_failed, s4) \<Rightarrow> Returned [] s4
      | (T_null_deref, s4) \<Rightarrow> Undefined_behaviour
      | (T_raised e, s4) \<Rightarrow> Raised e
      | (T_ok t_axis step_count, s4) \<Rightarrow>
          finish_metadata (fst s) path files n_x n_y n_z x_axis y_axis z_axis t_axis
            step_count s4)))))))))"

text \<open>
  The work of the root rank when nothing is cached: the files are enumerated (the
  subscript \<^verbatim>\<open>files[0]\<close> of an empty list is undefined behaviour), the first file is
  opened, the handle map is initialised and the entry of the first file is set once
  more. \<open>ord\<close> is the order in which the time-axis tasks complete.
\<close>

definition root_rank_parse :: "file_util \<Rightarrow> nat list \<Rightarrow> sys \<Rightarrow> md_result" where
  "root_rank_parse fu ord s =
     (case enumerate_files fu (fst s) of
        None \<Rightarrow> Returned [] s
      | Some (path, files) \<Rightarrow>
          (case files of
             [] \<Rightarrow> Undefined_behaviour
           | file0 # others \<Rightarrow>
               (case nc_open (snd s) (path @ PATH_SEP @ file0) of
                  None \<Rightarrow> Returned [] s
                | Some (file_id, w1) \<Rightarrow>
                    (case initialize_handles files (fst s, w1) of
                       (r2, w2) \<Rightarrow>
                         parse_dataset path files ord file_id
                           (r2\<lparr>handles :=
                                 AList.update file0 (Some Mutex, None) (handles r2)\<rparr>,
                            w2)))))"

text \<open>The phase: cached metadata is returned as it is.\<close>

definition get_output_metadata :: "file_util \<Rightarrow> nat list \<Rightarrow> sys \<Rightarrow> md_result" where
  "get_output_metadata fu ord s =
     (if metadata (fst s) = [] then root_rank_parse fu ord s
      else Returned (metadata (fst s)) s)"

text \<open>The bag a result returns; the empty bag when nothing is returned.\<close>

definition returned_metadata :: "md_result \<Rightarrow> teca_metadata" where
  "returned_metadata res = (case res of Returned md s \<Rightarrow> md | _ \<Rightarrow> [])"

subsection \<open>The execute phase: \<^verbatim>\<open>execute\<close>\<close>

text \<open>
  Locating the file of a time step. \<open>idx\<close>, \<open>cnt\<close> and the step counts are
  \<^verbatim>\<open>unsigned long\<close>; the loop counter \<open>i\<close> is an \<^verbatim>\<open>unsigned int\<close> that stays below the
  length of \<open>step_count\<close>, and it is a natural number here (the theorems about the
  loop assume fewer than \<open>2 ^ 32\<close> files).
\<close>

function locate_loop :: "nat list \<Rightarrow> nat \<Rightarrow> nat \<Rightarrow> nat \<Rightarrow> nat \<Rightarrow> nat \<times> nat" where
  "locate_loop step_count time_step i idx cnt =
     (if i < length step_count \<and> ulong_add cnt (step_count ! (i - 1)) \<le> time_step
      then locate_loop step_count time_step (Suc i) (ulong_add idx 1)
             (ulong_add cnt (step_count ! (i - 1)))
      else (idx, cnt))"
  by pat_completeness auto
termination
  by (relation "measure (\<lambda>(step_count, time_step, i, idx, cnt). length step_count - i)") auto

text \<open>The file index \<open>idx\<close> and the offset \<open>offs\<close> of the step in that file.\<close>

definition locate_file :: "nat list \<Rightarrow> nat \<Rightarrow> nat \<times> nat" where
  "locate_file step_count time_step =
     (case locate_loop step_count time_step 1 0 0 of
        (idx, cnt) \<Rightarrow> (idx, ulong_sub time_step cnt))"

text \<open>
  Modelled from the spec: the classes \<^verbatim>\<open>teca_cartesian_mesh\<close> and
  \<^verbatim>\<open>teca_array_collection\<close> are not among the sources. A mesh carries its coordinate
  arrays, its time and time step, its extents, the calendar and the time units when
  they were set, and its point arrays and information arrays: named arrays in the order
  in which they were attached. The array of an entry may be a null pointer.
\<close>

record teca_cartesian_mesh =
  x_coordinates :: variant_array
  y_coordinates :: variant_array
  z_coordinates :: variant_array
  mesh_time :: real
  mesh_time_step :: nat
  mesh_whole_extent :: "nat list"
  mesh_extent :: "nat list"
  mesh_calendar :: "string option"
  mesh_time_units :: "string option"
  point_arrays :: "(string \<times> variant_array option) list"
  information_arrays :: "(string \<times> variant_array option) list"

definition ac_append ::
  "string \<Rightarrow> variant_array option \<Rightarrow> (string \<times> variant_array option) list \<Rightarrow>
     (string \<times> variant_array option) list" where
  "ac_append name array coll = coll @ [(name, array)]"

text \<open>The test whether a variable is a mesh variable: the same number of dimensions
  and, in the loop, the same name at every position.\<close>

function mesh_var_loop :: "string list \<Rightarrow> string list \<Rightarrow> nat \<Rightarrow> bool" where
  "mesh_var_loop dim_names mesh_dim_names ii =
     (if ii < length dim_names then
        (if dim_names ! ii = mesh_dim_names ! ii
         then mesh_var_loop dim_names mesh_dim_names (Suc ii)
         else False)
      else True)"
  by pat_completeness auto
termination
  by (relation "measure (\<lambda>(dim_names, mesh_dim_names, ii). length dim_names - ii)") auto

definition is_mesh_var :: "string list \<Rightarrow> string list \<Rightarrow> bool" where
  "is_mesh_var dim_names mesh_dim_names =
     (if length dim_names = length mesh_dim_names
      then mesh_var_loop dim_names mesh_dim_names 0
      else False)"

text \<open>The mapping from the extent to the hyperslab: the names of the dimensions, the
  starts, the counts and the mesh size; an axis that is not configured is left out.\<close>

type_synonym hyperslab = "string list \<times> nat list \<times> nat list \<times> nat"

definition add_time_dim :: "string \<Rightarrow> nat \<Rightarrow> hyperslab \<Rightarrow> hyperslab" where
  "add_time_dim name offs h =
     (if name = [] then h
      else (case h of (names, starts, counts, mesh_size) \<Rightarrow>
              (names @ [name], starts @ [offs], counts @ [1], mesh_size)))"

definition add_space_dim :: "string \<Rightarrow> nat \<Rightarrow> nat \<Rightarrow> hyperslab \<Rightarrow> hyperslab" where
  "add_space_dim name lo hi h =
     (if name = [] then h
      else (case h of (names, starts, counts, mesh_size) \<Rightarrow>
              (names @ [name], starts @ [lo], counts @ [ulong_add (ulong_sub hi lo) 1],
               ulong_mul mesh_size (ulong_add (ulong_sub hi lo) 1))))"

definition mesh_dims :: "teca_cf_reader \<Rightarrow> nat \<Rightarrow> nat list \<Rightarrow> hyperslab" where
  "mesh_dims r offs extent =
     add_space_dim (x_axis_variable r) (extent ! 0) (extent ! 1)
       (add_space_dim (y_axis_variable r) (extent ! 2) (extent ! 3)
         (add_space_dim (z_axis_variable r) (extent ! 4) (extent ! 5)
           (add_time_dim (t_axis_variable r) offs ([], [], [], 1))))"

text \<open>
  One pass of the loop over the requested arrays. \<open>Skipped e\<close>: the error was reported
  and the loop went on with the next name (\<^verbatim>\<open>continue\<close>). \<open>Read_array a\<close>: the array
  was read and is attached. \<open>Fell_through e\<close>: the type code has no case in
  \<^verbatim>\<open>NC_DISPATCH\<close>, the \<^verbatim>\<open>default\<close> branch reported the error and left the \<^verbatim>\<open>switch\<close>, and
  the null array is attached.
\<close>

datatype array_step = Skipped teca_error | Read_array variant_array | Fell_through teca_error

definition read_point_array ::
  "nc_world \<Rightarrow> nat \<Rightarrow> teca_metadata \<Rightarrow> hyperslab \<Rightarrow> string \<Rightarrow> array_step" where
  "read_point_array w file_id atrs h name =
     (case h of (mesh_dim_names, starts, counts, mesh_size) \<Rightarrow>
        (case md_get_bag atrs name of
           None \<Rightarrow> Skipped MetadataMissing
         | Some atts \<Rightarrow>
             (case md_get_type atts ''type'' of
                None \<Rightarrow> Skipped MetadataMissing
              | Some a_type \<Rightarrow>
                  (case md_get_int atts ''id'' of
                     None \<Rightarrow> Skipped MetadataMissing
                   | Some a_id \<Rightarrow>
                       (case md_get_strings atts ''dim_names'' of
                          None \<Rightarrow> Skipped MetadataMissing
                        | Some dim_names \<Rightarrow>
                            if is_mesh_var dim_names mesh_dim_names then
                              (if nc_dispatch a_type then
                                 (case nc_get_vara w file_id a_id starts counts of
                                    None \<Rightarrow> Skipped HyperslabReadFailed
                                  | Some g \<Rightarrow>
                                      Read_array (va_fill (va_new a_type mesh_size) g))
                               else Fell_through UnsupportedKind)
                            else Skipped DimensionMismatch)))))"

text \<open>One pass of the loop over the time variables: one element at the first start.\<close>

definition read_time_var ::
  "nc_world \<Rightarrow> nat \<Rightarrow> teca_metadata \<Rightarrow> hyperslab \<Rightarrow> string \<Rightarrow> array_step" where
  "read_time_var w file_id atrs h name =
     (case h of (mesh_dim_names, starts, counts, mesh_size) \<Rightarrow>
        (case md_get_bag atrs name of
           None \<Rightarrow> Skipped MetadataMissing
         | Some atts \<Rightarrow>
             (case md_get_type atts ''type'' of
                None \<Rightarrow> Skipped MetadataMissing
              | Some a_type \<Rightarrow>
                  (case md_get_int atts ''id'' of
                     None \<Rightarrow> Skipped MetadataMissing
                   | Some a_id \<Rightarrow>
                       if nc_dispatch a_type then
                         (case nc_get_vara w file_id a_id (take 1 starts) [1] of
                            None \<Rightarrow> Skipped HyperslabReadFailed
                          | Some g \<Rightarrow> Read_array (va_fill (va_new a_type 1) g))
                       else Fell_through UnsupportedKind))))"

text \<open>The loop itself: the collection so far and the errors reported so far.\<close>

fun attach_arrays ::
  "(string \<Rightarrow> array_step) \<Rightarrow> string list \<Rightarrow>
     (string \<times> variant_array option) list \<times> (string \<times> teca_error) list \<Rightarrow>
     (string \<times> variant_array option) list \<times> (string \<times> teca_error) list" where
  "attach_arrays step [] acc = acc"
| "attach_arrays step (name # names) (coll, errs) =
     (case step name of
        Skipped e \<Rightarrow> attach_arrays step names (coll, errs @ [(name, e)])
      | Read_array a \<Rightarrow> attach_arrays step names (ac_append name (Some a) coll, errs)
      | Fell_through e \<Rightarrow>
          attach_arrays step names (ac_append name None coll, errs @ [(name, e)]))"

text \<open>
  The result of execute: the mesh with the errors the two loops reported, no mesh (the
  null return), or the error of a failed slice.
\<close>

datatype exec_result =
    Mesh teca_cartesian_mesh "(string \<times> teca_error) list"
  | No_mesh
  | Exec_raised teca_error

record exec_ctx =
  c_mesh :: teca_cartesian_mesh
  c_file_id :: nat
  c_atrs :: teca_metadata
  c_hyperslab :: hyperslab

text \<open>Everything in front of the two loops: the lookups in the cached metadata and in
  the request, the slices of the axes, the file of the step and its handle, the empty
  mesh and the hyperslab. The list of requested arrays plays no part in it.\<close>

definition exec_prelude :: "sys \<Rightarrow> teca_metadata \<Rightarrow> (exec_result + exec_ctx) \<times> sys" where
  "exec_prelude s request =
     (case md_get_bag (metadata (fst s)) ''coordinates'' of
        None \<Rightarrow> (Inl No_mesh, s)
      | Some coords \<Rightarrow>
     (case md_get_array coords ''x'' of
        None \<Rightarrow> (Inl No_mesh, s)
      | Some in_x \<Rightarrow>
     (case md_get_array coords ''y'' of
        None \<Rightarrow> (Inl No_mesh, s)
      | Some in_y \<Rightarrow>
     (case md_get_array coords ''z'' of
        None \<Rightarrow> (Inl No_mesh, s)
      | Some in_z \<Rightarrow>
     (case md_get_array coords ''t'' of
        None \<Rightarrow> (Inl No_mesh, s)
      | Some in_t \<Rightarrow>
     (case (case md_get_ulong request ''time_step'' of None \<Rightarrow> 0 | Some v \<Rightarrow> v) of
        time_step \<Rightarrow>
     (case md_get_ulong_n (metadata (fst s)) ''whole_extent'' 6 of
        None \<Rightarrow> (Inl No_mesh, s)
      | Some whole_extent \<Rightarrow>
     (case (case md_get_ulong_n request ''extent'' 6 of
              None \<Rightarrow> whole_extent | Some e \<Rightarrow> e) of
        extent \<Rightarrow>
     (case va_new_copy in_x (extent ! 0) (extent ! 1) of
        Inl e \<Rightarrow> (Inl (Exec_raised e), s)
      | Inr out_x \<Rightarrow>
     (case va_new_copy in_y (extent ! 2) (extent ! 3) of
        Inl e \<Rightarrow> (Inl (Exec_raised e), s)
      | Inr out_y \<Rightarrow>
     (case va_new_copy in_z (extent ! 4) (extent ! 5) of
        Inl e \<Rightarrow> (Inl (Exec_raised e), s)
      | Inr out_z \<Rightarrow>
     (case md_get_ulongs (metadata (fst s)) ''step_count'' of
        None \<Rightarrow> (Inl No_mesh, s)
      | Some step_count \<Rightarrow>
     (case locate_file step_count time_step of
        (idx, offs) \<Rightarrow>
     (case md_get_string (metadata (fst s)) ''root'' of
        None \<Rightarrow> (Inl No_mesh, s)
      | Some path \<Rightarrow>
     (case md_get_string_at (metadata (fst s)) ''files'' idx of
        None \<Rightarrow> (Inl No_mesh, s)
      | Some file \<Rightarrow>
     (case get_handle path file s of
        (None, s1) \<Rightarrow> (Inl No_mesh, s1)
      | (Some (file_id, file_mutex), s1) \<Rightarrow>
     (case md_get_bag (metadata (fst s)) ''attributes'' of
        None \<Rightarrow> (Inl No_mesh, s1)
      | Some atrs \<Rightarrow>
          (Inr \<lparr>c_mesh =
                  \<lparr>x_coordinates = out_x, y_coordinates = out_y, z_coordinates = out_z,
                   mesh_time = (if time_step < va_size in_t then va_data in_t ! time_step else 0),
                   mesh_time_step = time_step,
                   mesh_whole_extent = whole_extent,
                   mesh_extent = extent,
                   mesh_calendar =
                     (case md_get_bag atrs ''time'' of
                        None \<Rightarrow> None
                      | Some time_atts \<Rightarrow>
                          (case md_get_string time_atts ''calendar'' of
                             None \<Rightarrow> None
                           | Some calendar \<Rightarrow>
                               (case md_get_string time_atts ''units'' of
                                  None \<Rightarrow> None
                                | Some units \<Rightarrow> Some calendar))),
                   mesh_time_units =
                     (case md_get_bag atrs ''time'' of
                        None \<Rightarrow> None
                      | Some time_atts \<Rightarrow>
                          (case md_get_string time_atts ''calendar'' of
                             None \<Rightarrow> None
                           | Some calendar \<Rightarrow> md_get_string time_atts ''units'')),
                   point_arrays = [], information_arrays = []\<rparr>,
                c_file_id = file_id,
                c_atrs = atrs,
                c_hyperslab = mesh_dims (fst s) offs extent\<rparr>,
           s1))))))))))))))))))"

text \<open>The two loops, and the mesh returned.\<close>

definition execute :: "sys \<Rightarrow> teca_metadata \<Rightarrow> exec_result \<times> sys" where
  "execute s request =
     (case exec_prelude s request of
        (Inl failure, s1) \<Rightarrow> (failure, s1)
      | (Inr c, s1) \<Rightarrow>
          (case attach_arrays
                  (read_point_array (snd s1) (c_file_id c) (c_atrs c) (c_hyperslab c))
                  (case md_get_strings request ''arrays'' of None \<Rightarrow> [] | Some a \<Rightarrow> a)
                  ([], []) of
             (pa, errs) \<Rightarrow>
               (case attach_arrays
                       (read_time_var (snd s1) (c_file_id c) (c_atrs c) (c_hyperslab c))
                       (case md_get_strings (metadata (fst s)) ''time variables'' of
                          None \<Rightarrow> [] | Some tv \<Rightarrow> tv)
                       ([], errs) of
                  (ia, errs') \<Rightarrow>
                    (Mesh ((c_mesh c)\<lparr>point_arrays := pa, information_arrays := ia\<rparr>) errs',
                     s1))))"

subsection \<open>The per-array errors of the execute phase, as the specification names them\<close>

text \<open>
  \<open>array_error\<close>: a request for the array \<open>name\<close> meets one of the three per-array
  errors: the attribute lookup fails (the bag of the variable, or its type, id or
  dimension names), the dimension names differ from those of the mesh, or the read of
  the hyperslab fails. \<open>array_read\<close>: the array the request reads when it succeeds.
\<close>

definition array_error :: "nc_world \<Rightarrow> nat \<Rightarrow> teca_metadata \<Rightarrow> hyperslab \<Rightarrow> string \<Rightarrow> bool" where
  "array_error w file_id atrs h name =
     (case h of (mesh_dim_names, starts, counts, mesh_size) \<Rightarrow>
        (case md_get_bag atrs name of
           None \<Rightarrow> True
         | Some atts \<Rightarrow>
             (case md_get_type atts ''type'' of
                None \<Rightarrow> True
              | Some a_type \<Rightarrow>
                  (case md_get_int atts ''id'' of
                     None \<Rightarrow> True
                   | Some a_id \<Rightarrow>
                       (case md_get_strings atts ''dim_names'' of
                          None \<Rightarrow> True
                        | Some dim_names \<Rightarrow>
                            (if dim_names = mesh_dim_names
                             then nc_dispatch a_type
                                  \<and> nc_get_vara w file_id a_id starts counts = None
                             else True))))))"

definition array_read ::
  "nc_world \<Rightarrow> nat \<Rightarrow> teca_metadata \<Rightarrow> hyperslab \<Rightarrow> string \<Rightarrow> variant_array option" where
  "array_read w file_id atrs h name =
     (case h of (mesh_dim_names, starts, counts, mesh_size) \<Rightarrow>
        (case md_get_bag atrs name of
           None \<Rightarrow> None
         | Some atts \<Rightarrow>
             (case md_get_type atts ''type'' of
                None \<Rightarrow> None
              | Some a_type \<Rightarrow>
                  (case md_get_int atts ''id'' of
                     None \<Rightarrow> None
                   | Some a_id \<Rightarrow>
                       (case md_get_strings atts ''dim_names'' of
                          None \<Rightarrow> None
                        | Some dim_names \<Rightarrow>
                            (if dim_names = mesh_dim_names \<and> nc_dispatch a_type
                             then map_option (va_fill (va_new a_type mesh_size))
                                    (nc_get_vara w file_id a_id starts counts)
                             else None))))))"

text \<open>The entries of a collection that carry an array.\<close>

definition present_arrays ::
  "(string \<times> variant_array option) list \<Rightarrow> (string \<times> variant_array) list" where
  "present_arrays coll = List.map_filter (\<lambda>(n, p). map_option (Pair n) p) coll"

subsection \<open>Views of the global metadata record\<close>

text \<open>
  What a reader of the record sees of the time axis (the files, the step counts, the
  number of time steps and the length of the time array), of the mesh axes (the whole
  extent and the three spatial arrays, \<open>None\<close> for an array that is absent) and of the
  coordinate names.
\<close>

definition time_axis_view ::
  "teca_metadata \<Rightarrow> string list option \<times> nat list option \<times> nat option \<times> nat option" where
  "time_axis_view md =
     (md_get_strings md ''files'', md_get_ulongs md ''step_count'',
      md_get_ulong md ''number_of_time_steps'',
      (case md_get_bag md ''coordinates'' of
         None \<Rightarrow> None
       | Some coords \<Rightarrow> map_option va_size (md_get_array coords ''t'')))"

definition mesh_axes_view ::
  "teca_metadata \<Rightarrow>
     nat list option \<times> variant_array option \<times> variant_array option \<times> variant_array option" where
  "mesh_axes_view md =
     (case md_get_bag md ''coordinates'' of
        None \<Rightarrow> (md_get_ulongs md ''whole_extent'', None, None, None)
      | Some coords \<Rightarrow>
          (md_get_ulongs md ''whole_extent'', md_get_array coords ''x'',
           md_get_array coords ''y'', md_get_array coords ''z''))"

definition coordinate_names_view ::
  "teca_metadata \<Rightarrow> string option \<times> string option \<times> string option \<times> string option" where
  "coordinate_names_view md =
     (case md_get_bag md ''coordinates'' of
        None \<Rightarrow> (None, None, None, None)
      | Some coords \<Rightarrow>
          (md_get_string coords ''x_variable'', md_get_string coords ''y_variable'',
           md_get_string coords ''z_variable'', md_get_string coords ''t_variable''))"

section \<open>Example inputs\<close>

text \<open>Two time arrays, of three and of two steps.\<close>

definition ex_t0 :: variant_array where
  "ex_t0 = \<lparr>va_kind = NC_DOUBLE, va_data = [0, 1, 2]\<rparr>"

definition ex_t1 :: variant_array where
  "ex_t1 = \<lparr>va_kind = NC_DOUBLE, va_data = [3, 4]\<rparr>"

text \<open>
  A data set of two files in the directory \<open>d\<close>, \<open>a\<close> with three time steps and
  \<open>b\<close> with \<open>n_b\<close>, on a mesh of two longitudes and one latitude. The parameters
  are the type of the \<open>lon\<close> variable, the number of time steps of \<open>b\<close> and whether
  \<open>b\<close> has its time variable. Of the
  field variables, \<open>tas\<close> is a mesh variable, \<open>lbl\<close> is a mesh variable of a string
  type, \<open>bad\<close> is a mesh variable whose reads fail, and \<open>ps\<close> has no time dimension.
  The reader is the default reader with a regular expression that finds both files.
\<close>

definition ex_var :: "string \<Rightarrow> nc_type \<Rightarrow> nat list \<Rightarrow> nc_att list \<Rightarrow> bool \<Rightarrow> nc_var" where
  "ex_var name t dims atts ok =
     \<lparr>var_name = name, var_type = t, var_dimids = dims, var_atts = atts,
      var_data = (\<lambda>start cnt. if ok then Some (\<lambda>i. real i) else None)\<rparr>"

definition ex_file :: "nc_type \<Rightarrow> nat \<Rightarrow> bool \<Rightarrow> nc_file" where
  "ex_file lon_t n_time has_time =
     \<lparr>file_dims = [(''time'', n_time), (''lat'', 1), (''lon'', 2)],
      file_vars =
        [ex_var (if has_time then ''time'' else ''date'') NC_DOUBLE [0]
           [\<lparr>att_name = ''units'', att_type = NC_CHAR, att_text = ''days  ''\<rparr>] True,
         ex_var ''lat'' NC_FLOAT [1] [] True,
         ex_var ''lon'' lon_t [2] [] True,
         ex_var ''tas'' NC_FLOAT [0, 1, 2] [] True,
         ex_var ''lbl'' NC_STRING [0, 1, 2] [] True,
         ex_var ''bad'' NC_FLOAT [0, 1, 2] [] False,
         ex_var ''ps'' NC_FLOAT [1, 2] [] True]\<rparr>"

definition ex_world :: "nc_type \<Rightarrow> nat \<Rightarrow> bool \<Rightarrow> nc_world" where
  "ex_world lon_t n_b b_ok =
     \<lparr>nc_disk = (\<lambda>p. if p = ''d/a'' then Some (ex_file lon_t 3 True)
                     else if p = ''d/b'' then Some (ex_file lon_t n_b b_ok) else None),
      nc_table = []\<rparr>"

definition ex_fu :: file_util where
  "ex_fu = \<lparr>fu_path = (\<lambda>p. ''d''), fu_filename = (\<lambda>p. ''re''),
            fu_locate_files = (\<lambda>path regex. Some [''a'', ''b''])\<rparr>"

definition ex_reader :: teca_cf_reader where
  "ex_reader = new_teca_cf_reader\<lparr>files_regex := ''d/re''\<rparr>"

definition ex_atts :: "nat \<Rightarrow> nat list \<Rightarrow> string list \<Rightarrow> nc_type \<Rightarrow> teca_metadata" where
  "ex_atts i dims dim_names t =
     [(''id'', MInt [i]), (''dims'', MULong dims), (''dim_names'', MString dim_names),
      (''type'', MType t), (''centering'', MString [''point''])]"

definition ex_md :: teca_metadata where
  "ex_md =
     [(''variables'', MString [''time'', ''lat'', ''lon'', ''tas'', ''lbl'', ''bad'', ''ps'']),
      (''attributes'',
       MBag
        [(''time'', MBag (ex_atts 0 [3] [''time''] NC_DOUBLE @ [(''units'', MString [''days''])])),
         (''lat'', MBag (ex_atts 1 [1] [''lat''] NC_FLOAT)),
         (''lon'', MBag (ex_atts 2 [2] [''lon''] NC_FLOAT)),
         (''tas'', MBag (ex_atts 3 [3, 1, 2] [''time'', ''lat'', ''lon''] NC_FLOAT)),
         (''lbl'', MBag (ex_atts 4 [3, 1, 2] [''time'', ''lat'', ''lon''] NC_STRING)),
         (''bad'', MBag (ex_atts 5 [3, 1, 2] [''time'', ''lat'', ''lon''] NC_FLOAT)),
         (''ps'', MBag (ex_atts 6 [1, 2] [''lat'', ''lon''] NC_FLOAT))]),
      (''time variables'', MString [''time'']),
      (''whole_extent'', MULong [0, 1, 0, 0, 0, 0]),
      (''coordinates'',
       MBag
        [(''x_variable'', MString [''lon'']), (''y_variable'', MString [''y'']),
         (''z_variable'', MString [''z'']), (''t_variable'', MString [''t'']),
         (''x'', MArray (Some \<lparr>va_kind = NC_FLOAT, va_data = [0, 1]\<rparr>)),
         (''y'', MArray (Some \<lparr>va_kind = NC_FLOAT, va_data = [0]\<rparr>)),
         (''z'', MArray (Some \<lparr>va_kind = NC_FLOAT, va_data = [0]\<rparr>)),
         (''t'', MArray (Some \<lparr>va_kind = NC_DOUBLE, va_data = [0, 1, 2, 0, 1]\<rparr>))]),
      (''files'', MString [''a'', ''b'']),
      (''root'', MString [''d'']),
      (''step_count'', MULong [3, 2]),
      (''number_of_time_steps'', MULong [5])]"

definition ex_post :: sys where
  "ex_post =
     (ex_reader\<lparr>metadata := ex_md,
                handles := [(''a'', (Some Mutex, None)), (''b'', (Some Mutex, None))]\<rparr>,
      (ex_world NC_FLOAT 2 True)\<lparr>nc_table := [(1, ex_file NC_FLOAT 3 True)]\<rparr>)"

definition ex_request :: teca_metadata where
  "ex_request = [(''time_step'', MULong [3])]"

text \<open>An open file whose one variable has a character attribute of a single blank.\<close>

definition ex_blank_world :: nc_world where
  "ex_blank_world =
     \<lparr>nc_disk = (\<lambda>p. None),
      nc_table =
        [(1, \<lparr>file_dims = [(''x'', 1)],
              file_vars =
                [ex_var ''v'' NC_FLOAT [0]
                   [\<lparr>att_name = ''pad'', att_type = NC_CHAR, att_text = '' ''\<rparr>] True]\<rparr>)]\<rparr>"

text \<open>The state after execute has opened the second file for time step 3, the context
  of the two loops, the arrays requested and the mesh returned.\<close>

definition ex_ctx :: exec_ctx where
  "ex_ctx =
     \<lparr>c_mesh =
        \<lparr>x_coordinates = \<lparr>va_kind = NC_FLOAT, va_data = [0, 1]\<rparr>,
         y_coordinates = \<lparr>va_kind = NC_FLOAT, va_data = [0]\<rparr>,
         z_coordinates = \<lparr>va_kind = NC_FLOAT, va_data = [0]\<rparr>,
         mesh_time = 0, mesh_time_step = 3,
         mesh_whole_extent = [0, 1, 0, 0, 0, 0], mesh_extent = [0, 1, 0, 0, 0, 0],
         mesh_calendar = None, mesh_time_units = None,
         point_arrays = [], information_arrays = []\<rparr>,
      c_file_id = 2,
      c_atrs = (case md_get_bag ex_md ''attributes'' of None \<Rightarrow> [] | Some a \<Rightarrow> a),
      c_hyperslab = ([''time'', ''lat'', ''lon''], [0, 0, 0], [1, 1, 2], 2)\<rparr>"

definition ex_post2 :: sys where
  "ex_post2 =
     ((fst ex_post)\<lparr>handles :=
         [(''a'', (Some Mutex, None)), (''b'', (Some Mutex, Some \<lparr>m_handle = 2\<rparr>))]\<rparr>,
      (snd ex_post)\<lparr>nc_table := [(2, ex_file NC_FLOAT 2 True), (1, ex_file NC_FLOAT 3 True)]\<rparr>)"

definition ex_arrays :: "string list" where
  "ex_arrays = [''tas'', ''lbl'', ''bad'', ''ps'', ''nope'']"

definition ex_mesh :: teca_cartesian_mesh where
  "ex_mesh =
     (c_mesh ex_ctx)
       \<lparr>point_arrays := [(''tas'', Some \<lparr>va_kind = NC_FLOAT, va_data = [0, 1]\<rparr>), (''lbl'', None)],
        information_arrays := [(''time'', Some \<lparr>va_kind = NC_DOUBLE, va_data = [0]\<rparr>)]\<rparr>"

section \<open>Properties\<close>

text \<open>The recursive equations of the loops are unfolded by hand.\<close>

declare locate_loop.simps [simp del]

declare append_loop.simps [simp del]

declare mesh_var_loop.simps [simp del]

subsection \<open>Step-to-file resolution\<close>

lemma sum_take_mono: "a \<le> b \<Longrightarrow> sum_list (take a (xs::nat list)) \<le> sum_list (take b xs)"
proof -
  assume "a \<le> b"
  then obtain d where "b = a + d" using le_Suc_ex by blast
  then show ?thesis by (simp add: take_add)
qed

lemma sum_take_le: "sum_list (take a (xs::nat list)) \<le> sum_list xs"
  using sum_take_mono[of a "length xs" xs] by (cases "a \<le> length xs") auto

lemma locate_loop_inv:
  assumes "1 \<le> i" "i \<le> length sc" "cnt = sum_list (take (i - 1) sc)" "idx = i - 1"
    "cnt \<le> ts" "ts < sum_list sc" "sum_list sc < 2 ^ 64" "length sc < 2 ^ 32"
  shows "\<exists>k. locate_loop sc ts i idx cnt = (k, sum_list (take k sc)) \<and> k < length sc
          \<and> sum_list (take k sc) \<le> ts \<and> ts < sum_list (take (Suc k) sc)"
  using assms
proof (induction sc ts i idx cnt rule: locate_loop.induct)
  case (1 sc ts i idx cnt)
  have ile: "i - 1 < length sc" using "1.prems"(1,2) by simp
  have "take (Suc (i - 1)) sc = take (i - 1) sc @ [sc ! (i - 1)]"
    by (rule take_Suc_conv_app_nth[OF ile])
  then have pre: "take i sc = take (i - 1) sc @ [sc ! (i - 1)]"
    using "1.prems"(1) by simp
  have sumi: "sum_list (take i sc) = cnt + sc ! (i - 1)"
    unfolding pre using "1.prems"(3) by simp
  have nowrap: "ulong_add cnt (sc ! (i - 1)) = cnt + sc ! (i - 1)"
    using sumi sum_take_le[of i sc] "1.prems"(7) by (simp add: ulong_add_def)
  show ?case
  proof (cases "i < length sc \<and> ulong_add cnt (sc ! (i - 1)) \<le> ts")
    case True
    have idx': "ulong_add idx 1 = Suc i - 1"
      using "1.prems" True by (simp add: ulong_add_def)
    have "\<exists>k. locate_loop sc ts (Suc i) (ulong_add idx 1) (ulong_add cnt (sc ! (i - 1)))
            = (k, sum_list (take k sc)) \<and> k < length sc
          \<and> sum_list (take k sc) \<le> ts \<and> ts < sum_list (take (Suc k) sc)"
      apply (rule "1.IH")
      using True "1.prems" nowrap sumi idx' by auto
    then show ?thesis using True by (subst locate_loop.simps) simp
  next
    case False
    have res: "locate_loop sc ts i idx cnt = (idx, cnt)"
      using False by (subst locate_loop.simps) auto
    have "ts < sum_list (take i sc)"
    proof (cases "i < length sc")
      case True
      then show ?thesis using False nowrap sumi by auto
    next
      case False
      then have "i = length sc" using "1.prems" by simp
      then show ?thesis using "1.prems" by simp
    qed
    then show ?thesis using res "1.prems" by (cases i) auto
  qed
qed

lemma ulong_sub_nowrap:
  assumes "b \<le> a" and "a < 2 ^ 64"
  shows "ulong_sub a b = a - b"
proof -
  have b: "b mod 2 ^ 64 = b" using assms by (intro mod_less) simp
  have e: "a + 2 ^ 64 - b = (a - b) + 2 ^ 64" using assms(1) by (rule Nat.diff_add_assoc2)
  have "ulong_sub a b = (a + 2 ^ 64 - b) mod 2 ^ 64" unfolding ulong_sub_def b ..
  also have "\<dots> = ((a - b) + 2 ^ 64) mod 2 ^ 64" unfolding e ..
  also have "\<dots> = (a - b) mod 2 ^ 64" by (rule mod_add_self2)
  also have "\<dots> = a - b" using assms by (intro mod_less) simp
  finally show ?thesis .
qed

lemma locate_file_index:
  assumes "length sc < 2 ^ 32" "sum_list sc < 2 ^ 64" "ts < sum_list sc"
  shows "\<exists>k. locate_file sc ts = (k, ts - sum_list (take k sc)) \<and> k < length sc
          \<and> sum_list (take k sc) \<le> ts \<and> ts < sum_list (take (Suc k) sc)"
proof -
  have ne: "1 \<le> length sc" using assms(3) by (cases sc) auto
  obtain k where k: "locate_loop sc ts 1 0 0 = (k, sum_list (take k sc))" "k < length sc"
      "sum_list (take k sc) \<le> ts" "ts < sum_list (take (Suc k) sc)"
    using locate_loop_inv[of 1 sc 0 0 ts] ne assms by auto
  have "ts < 2 ^ 64" using assms by simp
  then have "ulong_sub ts (sum_list (take k sc)) = ts - sum_list (take k sc)"
    using k(3) by (simp add: ulong_sub_nowrap)
  then show ?thesis using k by (auto simp: locate_file_def)
qed

subsection \<open>Character attributes\<close>

text \<open>
  What \<open>crtrim\<close> leaves of a buffer \<open>xs @ zs\<close> trimmed with the length of \<open>xs\<close>:
  the first character of \<open>xs\<close> stays whatever it is, the rest of \<open>xs\<close> is trimmed on
  the right, and NULs fill the place of what was trimmed. So for a text without NUL the
  string stored is the first character followed by the right trim of the rest, which is
  the right trim of the text unless the text is all blanks.
\<close>

lemma right_trim_snoc:
  "right_trim (xs @ [y]) = (if is_blank y then right_trim xs else xs @ [y])"
  by (simp add: right_trim_def)

lemma right_trim_length: "length (right_trim xs) \<le> length xs"
  by (simp add: right_trim_def length_dropWhile_le[of is_blank "rev xs", simplified])

lemma right_trim_set: "set (right_trim xs) \<subseteq> set xs"
  using set_dropWhileD[of _ is_blank "rev xs"] by (auto simp: right_trim_def)

lemma right_trim_Cons:
  "right_trim (c # cs) = (if right_trim cs = [] \<and> is_blank c then [] else c # right_trim cs)"
proof (induction cs rule: rev_induct)
  case Nil
  then show ?case by (simp add: right_trim_def)
next
  case (snoc y ys)
  have "right_trim (c # ys @ [y]) = right_trim ((c # ys) @ [y])" by simp
  also have "\<dots> = (if is_blank y then right_trim (c # ys) else (c # ys) @ [y])"
    by (rule right_trim_snoc)
  finally show ?case using snoc by (simp add: right_trim_snoc)
qed

lemma crtrim_loop_append:
  assumes "xs \<noteq> []"
  shows "crtrim_loop (xs @ zs) (length xs - 1) (last xs)
     = (hd xs # right_trim (tl xs))
         @ replicate (length (tl xs) - length (right_trim (tl xs))) NUL @ zs"
  using assms
proof (induction xs arbitrary: zs rule: rev_nonempty_induct)
  case (single x)
  then show ?case by (simp add: right_trim_def)
next
  case (snoc y ys)
  have len: "length (ys @ [y]) - 1 = Suc (length ys - 1)" using snoc.hyps by (cases ys) auto
  have sucm: "Suc (length ys - 1) = length ys" using snoc.hyps by (cases ys) auto
  show ?case
  proof (cases "is_blank y")
    case False
    have l: "last (ys @ [y]) = y" by simp
    have a: "crtrim_loop ((ys @ [y]) @ zs) (length (ys @ [y]) - 1) (last (ys @ [y]))
        = (ys @ [y]) @ zs"
      unfolding len l using False by simp
    have tl: "tl (ys @ [y]) = tl ys @ [y]" using snoc.hyps by simp
    have rt: "right_trim (tl ys @ [y]) = tl ys @ [y]" using False by (simp add: right_trim_snoc)
    have hd: "hd (ys @ [y]) # tl ys @ [y] = ys @ [y]" using snoc.hyps by simp
    have b: "(hd (ys @ [y]) # right_trim (tl (ys @ [y])))
         @ replicate (length (tl (ys @ [y])) - length (right_trim (tl (ys @ [y])))) NUL @ zs
        = (ys @ [y]) @ zs"
      unfolding tl rt using hd by simp
    show ?thesis unfolding a b ..
  next
    case True
    obtain m where m: "length ys = Suc m" using snoc.hyps by (cases ys) auto
    have lm: "length (ys @ [y]) - 1 = Suc m" "length ys - 1 = m" using m by simp_all
    have l: "last (ys @ [y]) = y" by simp
    have upd: "((ys @ [y]) @ zs)[Suc m := NUL] = ys @ (NUL # zs)"
      using m by (simp add: list_update_append)
    have nth: "(ys @ (NUL # zs)) ! m = last ys"
      using m snoc.hyps by (simp add: nth_append last_conv_nth)
    have "crtrim_loop ((ys @ [y]) @ zs) (length (ys @ [y]) - 1) (last (ys @ [y]))
        = crtrim_loop (((ys @ [y]) @ zs)[Suc m := NUL]) m ((((ys @ [y]) @ zs)[Suc m := NUL]) ! m)"
      unfolding lm l using True by (simp only: crtrim_loop.simps if_True)
    also have "\<dots> = crtrim_loop (ys @ (NUL # zs)) (length ys - 1) (last ys)"
      unfolding upd nth lm ..
    also have "\<dots> = (hd ys # right_trim (tl ys))
         @ replicate (length (tl ys) - length (right_trim (tl ys))) NUL @ (NUL # zs)"
      by (rule snoc.IH)
    also have "\<dots> = (hd (ys @ [y]) # right_trim (tl (ys @ [y])))
         @ replicate (length (tl (ys @ [y])) - length (right_trim (tl (ys @ [y])))) NUL @ zs"
    proof -
      have tl: "tl (ys @ [y]) = tl ys @ [y]" using snoc.hyps by simp
      have rt: "right_trim (tl ys @ [y]) = right_trim (tl ys)" using True by (simp add: right_trim_snoc)
      have "length (tl ys @ [y]) - length (right_trim (tl ys))
          = Suc (length (tl ys) - length (right_trim (tl ys)))"
        using right_trim_length[of "tl ys"] by simp
      then have rep: "replicate (length (tl ys @ [y]) - length (right_trim (tl ys))) NUL
          = replicate (length (tl ys) - length (right_trim (tl ys))) NUL @ [NUL]"
        by (simp add: replicate_append_same)
      show ?thesis unfolding tl rt rep using snoc.hyps by simp
    qed
    finally show ?thesis .
  qed
qed

lemma att_string_keeps_first:
  assumes "NUL \<notin> set txt"
  shows "att_string txt = (case txt of [] \<Rightarrow> [] | c # cs \<Rightarrow> c # right_trim cs)"
proof (cases "txt")
  case Nil
  then show ?thesis by (simp add: att_string_def crtrim_def c_string_def)
next
  case (Cons c cs)
  then have ne: "txt \<noteq> []" by simp
  obtain m where m: "length txt = Suc m" using ne by (cases "txt") auto
  have nth: "(txt @ [NUL]) ! m = last txt"
    using m ne by (simp add: nth_append last_conv_nth)
  have "crtrim (Some (txt @ [NUL])) (length txt)
      = Some (crtrim_loop (txt @ [NUL]) m ((txt @ [NUL]) ! m))"
    using m by (simp add: crtrim_def)
  also have "\<dots> = Some (crtrim_loop (txt @ [NUL]) (length txt - 1) (last txt))"
    unfolding nth using m by simp
  also have "\<dots> = Some ((hd txt # right_trim (tl txt))
         @ replicate (length (tl txt) - length (right_trim (tl txt))) NUL @ [NUL])"
    by (simp only: crtrim_loop_append[OF ne])
  finally have b: "att_string txt = c_string ((c # right_trim cs)
         @ (replicate (length cs - length (right_trim cs)) NUL @ [NUL]))"
    using Cons by (simp add: att_string_def)
  have keep: "\<forall>x \<in> set (c # right_trim cs). x \<noteq> NUL"
    using assms Cons right_trim_set[of cs] by auto
  have stop: "takeWhile (\<lambda>c. c \<noteq> NUL) (replicate k NUL @ [NUL]) = []" for k
    by (cases k) simp_all
  show ?thesis
    unfolding b c_string_def using keep Cons by (simp add: takeWhile_append2 stop)
qed

lemma att_string_right_trim:
  assumes "NUL \<notin> set txt" and "right_trim txt \<noteq> []"
  shows "att_string txt = right_trim txt"
proof (cases "txt")
  case Nil
  then show ?thesis using assms(2) by (simp add: right_trim_def)
next
  case (Cons c cs)
  then show ?thesis using assms att_string_keeps_first[OF assms(1)]
    by (simp add: right_trim_Cons split: if_splits)
qed

subsection \<open>Assembling the time axis\<close>

lemma va_append_same_kind:
  "va_kind a = va_kind t \<Longrightarrow> va_append t a = Inr (t\<lparr>va_data := va_data t @ va_data a\<rparr>)"
  by (simp add: va_append_def)

lemma append_loop_present:
  assumes "\<forall>j. i \<le> j \<and> j < n \<longrightarrow> (\<exists>a. time_arrays tmp j = Some a \<and> va_kind a = va_kind t)"
  shows "append_loop tmp n i t sc =
           T_ok (Some (t\<lparr>va_data := va_data t
                   @ concat (map (\<lambda>j. va_data (the (time_arrays tmp j))) [i..<n])\<rparr>))
             (sc @ map (\<lambda>j. va_size (the (time_arrays tmp j))) [i..<n])"
  using assms
proof (induction tmp n i t sc rule: append_loop.induct)
  case (1 tmp n i t sc)
  show ?case
  proof (cases "i < n")
    case False
    then show ?thesis by (subst append_loop.simps) simp
  next
    case True
    then obtain a where a: "time_arrays tmp i = Some a" "va_kind a = va_kind t"
      using "1.prems" by auto
    let ?t' = "t\<lparr>va_data := va_data t @ va_data a\<rparr>"
    have app: "va_append t a = Inr ?t'" using a by (simp add: va_append_same_kind)
    have "\<forall>j. Suc i \<le> j \<and> j < n \<longrightarrow> (\<exists>b. time_arrays tmp j = Some b \<and> va_kind b = va_kind ?t')"
      using "1.prems" by auto
    then have ih: "append_loop tmp n (Suc i) ?t' (sc @ [va_size a]) =
           T_ok (Some (?t'\<lparr>va_data := va_data ?t'
                   @ concat (map (\<lambda>j. va_data (the (time_arrays tmp j))) [Suc i..<n])\<rparr>))
             ((sc @ [va_size a]) @ map (\<lambda>j. va_size (the (time_arrays tmp j))) [Suc i..<n])"
      using "1.IH"[OF True a(1) app] by blast
    have upt: "[i..<n] = i # [Suc i..<n]" using True by (simp add: upt_conv_Cons)
    show ?thesis
      by (subst append_loop.simps) (simp add: True a app ih upt)
  qed
qed

lemma append_loop_ok_shape:
  "append_loop tmp n i t sc = T_ok r sc' \<Longrightarrow>
     \<exists>t'. r = Some t' \<and> length (va_data t') + sum_list sc = length (va_data t) + sum_list sc'
          \<and> length sc' = length sc + (n - i)"
proof (induction tmp n i t sc rule: append_loop.induct)
  case (1 tmp n i t sc)
  show ?case
  proof (cases "i < n")
    case False
    then show ?thesis using "1.prems" by (subst (asm) append_loop.simps) auto
  next
    case True
    from "1.prems" True obtain a t' where a: "time_arrays tmp i = Some a" "va_append t a = Inr t'"
        "append_loop tmp n (Suc i) t' (sc @ [va_size a]) = T_ok r sc'"
      by (subst (asm) append_loop.simps) (auto split: option.splits sum.splits)
    from "1.IH"[OF True a] obtain t'' where t'': "r = Some t''"
        "length (va_data t'') + sum_list (sc @ [va_size a]) = length (va_data t') + sum_list sc'"
        "length sc' = length (sc @ [va_size a]) + (n - Suc i)"
      by blast
    have "length (va_data t') = length (va_data t) + va_size a"
      using a(2) by (auto simp: va_append_def va_size_def split: if_splits)
    then show ?thesis using t'' True by (auto simp: va_size_def)
  qed
qed

lemma append_loop_not_failed: "append_loop tmp n i t sc \<noteq> T_failed"
proof (induction tmp n i t sc rule: append_loop.induct)
  case (1 tmp n i t sc)
  show ?case
    using "1.IH" by (subst append_loop.simps) (auto split: option.splits sum.splits)
qed

lemma append_loop_absent:
  assumes "i \<le> k" "k < n" "time_arrays tmp k = None"
  shows "append_loop tmp n i t sc \<noteq> T_failed \<and> (\<forall>r sc'. append_loop tmp n i t sc \<noteq> T_ok r sc')"
  using assms
proof (induction tmp n i t sc rule: append_loop.induct)
  case (1 tmp n i t sc)
  have lt: "i < n" using "1.prems" by simp
  show ?case
  proof (cases "i = k")
    case True
    then show ?thesis using "1.prems" lt by (subst append_loop.simps, subst append_loop.simps) simp
  next
    case False
    then have "Suc i \<le> k" using "1.prems" by simp
    then show ?thesis
      using "1.IH" "1.prems" lt 
      by (subst append_loop.simps, subst append_loop.simps) (auto split: option.splits sum.splits)
  qed
qed

lemma append_loop_null_deref:
  assumes "i \<le> k" "k < n" "time_arrays tmp k = None"
    "\<forall>j. i \<le> j \<and> j < k \<longrightarrow> (\<exists>a. time_arrays tmp j = Some a \<and> va_kind a = va_kind t)"
  shows "append_loop tmp n i t sc = T_null_deref"
  using assms
proof (induction tmp n i t sc rule: append_loop.induct)
  case (1 tmp n i t sc)
  have lt: "i < n" using "1.prems" by simp
  show ?case
  proof (cases "i = k")
    case True
    then show ?thesis using "1.prems" lt by (subst append_loop.simps) simp
  next
    case False
    then have le: "Suc i \<le> k" "i < k" using "1.prems" by simp_all
    then obtain a where a: "time_arrays tmp i = Some a" "va_kind a = va_kind t"
      using "1.prems"(4) by auto
    let ?t' = "t\<lparr>va_data := va_data t @ va_data a\<rparr>"
    have app: "va_append t a = Inr ?t'" using a by (simp add: va_append_same_kind)
    have "\<forall>j. Suc i \<le> j \<and> j < k \<longrightarrow> (\<exists>b. time_arrays tmp j = Some b \<and> va_kind b = va_kind ?t')"
      using "1.prems"(4) by auto
    then have "append_loop tmp n (Suc i) ?t' (sc @ [va_size a]) = T_null_deref"
      using "1.IH"[OF lt a(1) app le(1) "1.prems"(2,3)] by blast
    then show ?thesis by (subst append_loop.simps) (simp add: lt a app)
  qed
qed

lemma append_loop_cong:
  "time_arrays tmp = time_arrays tmp' \<Longrightarrow> append_loop tmp n i t sc = append_loop tmp' n i t sc"
proof (induction tmp n i t sc rule: append_loop.induct)
  case (1 tmp n i t sc)
  show ?case
    apply (subst append_loop.simps)
    apply (subst (2) append_loop.simps)
    using 1 by (auto split: option.splits sum.splits)
qed

lemma time_arrays_permuted:
  assumes "mset tmp = mset (zip [0..<length rs] rs)"
  shows "time_arrays tmp j = (if j < length rs then rs ! j else None)"
proof -
  let ?z = "zip [0..<length rs] rs"
  have dz: "distinct (map fst ?z)" by simp
  have "mset (map fst tmp) = mset (map fst ?z)" using assms by (metis mset_map)
  then have dt: "distinct (map fst tmp)" using dz by (metis mset_eq_imp_distinct_iff)
  have "set tmp = set ?z" using assms by (rule mset_eq_setD)
  then have m: "map_of tmp = map_of ?z" using map_of_inject_set[OF dt dz] by simp
  have "map_of ?z j = (if j < length rs then Some (rs ! j) else None)"
  proof (cases "j < length rs")
    case True
    then show ?thesis using map_of_zip_nth[of "[0..<length rs]" rs j] by simp
  next
    case False
    then have "j \<notin> fst ` set ?z" by (auto dest: set_zip_leftD)
    then show ?thesis using False by (simp add: map_of_eq_None_iff)
  qed
  then show ?thesis by (simp add: time_arrays_def m)
qed

lemma assemble_cong:
  assumes "time_arrays tmp = time_arrays tmp'"
  shows "assemble_time_axis n tmp = assemble_time_axis n tmp'"
  by (simp add: assemble_time_axis_def assms append_loop_cong[OF assms] split: option.splits)

lemma mset_zip_self: "mset (zip [0..<length rs] rs) = mset (zip [0..<length rs] rs)"
  by simp

lemma assemble_all_present:
  assumes "as \<noteq> []" "\<forall>a \<in> set as. va_kind a = va_kind (hd as)"
    "\<forall>j. time_arrays tmp j = (if j < length as then Some (as ! j) else None)"
  shows "assemble_time_axis (length as) tmp =
           T_ok (Some ((hd as)\<lparr>va_data := concat (map va_data as)\<rparr>)) (map va_size as)"
proof -
  let ?n = "length as"
  have n0: "0 < ?n" using assms(1) by simp
  have t0: "time_arrays tmp 0 = Some (hd as)" using assms(1,3) n0 by (simp add: hd_conv_nth)
  have pres: "\<forall>j. 1 \<le> j \<and> j < ?n \<longrightarrow> (\<exists>a. time_arrays tmp j = Some a \<and> va_kind a = va_kind (hd as))"
    using assms(2,3) by auto
  have idx: "map (\<lambda>j. f (the (time_arrays tmp j))) [0..<?n] = map f as" for f :: "variant_array \<Rightarrow> 'b"
  proof -
    have "map (\<lambda>j. f (the (time_arrays tmp j))) [0..<?n] = map (\<lambda>j. f (as ! j)) [0..<?n]"
      using assms(3) by simp
    also have "\<dots> = map f (map (\<lambda>j. as ! j) [0..<?n])" by simp
    also have "\<dots> = map f as" by (simp only: map_nth)
    finally show ?thesis .
  qed
  have upt: "[0..<?n] = 0 # [1..<?n]" using n0 by (simp add: upt_conv_Cons)
  have cs: "concat (map g [0..<?n]) = g 0 @ concat (map g [1..<?n])" for g :: "nat \<Rightarrow> real list"
    by (subst upt) simp
  have ms: "map g [0..<?n] = [g 0] @ map g [1..<?n]" for g :: "nat \<Rightarrow> nat"
    by (subst upt) simp
  have d: "va_data (hd as) @ concat (map (\<lambda>j. va_data (the (time_arrays tmp j))) [1..<?n])
             = concat (map va_data as)"
    using cs[of "\<lambda>j. va_data (the (time_arrays tmp j))"] t0 by (simp only: idx option.sel)
  have s: "[va_size (hd as)] @ map (\<lambda>j. va_size (the (time_arrays tmp j))) [1..<?n]
             = map va_size as"
    using ms[of "\<lambda>j. va_size (the (time_arrays tmp j))"] t0 by (simp only: idx option.sel)
  show ?thesis
    unfolding assemble_time_axis_def t0 option.case
    by (simp only: append_loop_present[OF pres] d s)
qed

lemma assemble_ok_shape:
  assumes "assemble_time_axis n tmp = T_ok r sc"
  shows "\<exists>t. r = Some t \<and> sum_list sc = va_size t \<and> length sc = Suc (n - 1)"
proof -
  from assms obtain a0 where a0: "time_arrays tmp 0 = Some a0"
      "append_loop tmp n 1 a0 [va_size a0] = T_ok r sc"
    by (auto simp: assemble_time_axis_def split: option.splits)
  from append_loop_ok_shape[OF a0(2)] show ?thesis
    by (auto simp: va_size_def)
qed

subsection \<open>The metadata phase\<close>

text \<open>A phase that starts with nothing cached and returns a record went through every
  step of the parse; \<open>metadata_phase_success\<close> collects what the steps gave and what
  the record holds under the six keys inserted last.\<close>

lemma md_insert_lookup:
  "map_of (md_insert k v m) k' = (if k' = k then Some v else map_of m k')"
  by (simp add: md_insert_def update_conv')

lemma md_insert_nonempty: "md_insert k v m \<noteq> []"
  by (cases m) (auto simp: md_insert_def)

lemma finish_metadata_Returned:
  assumes "finish_metadata cfg path files n_x n_y n_z x_axis y_axis z_axis t_axis sc s = Returned md s'"
  shows "\<exists>t. t_axis = Some t
     \<and> map_of md ''number_of_time_steps'' = Some (MULong [va_size t])
     \<and> map_of md ''step_count'' = Some (MULong sc)
     \<and> map_of md ''root'' = Some (MString [path])
     \<and> map_of md ''files'' = Some (MString files)
     \<and> map_of md ''coordinates'' = Some (MBag (coordinates_bag cfg x_axis y_axis z_axis t_axis))
     \<and> map_of md ''whole_extent'' = Some (MULong (whole_extent_of n_x n_y n_z))"
  using assms
  by (auto simp: finish_metadata_def md_insert_lookup split: option.splits)

lemma parse_dataset_Returned:
  assumes "parse_dataset path files ord file_id s = Returned md s'" and "md \<noteq> []"
  shows "\<exists>x_id n_x x_t y_id n_y y_t z_id n_z z_t x_axis y_axis z_axis t_axis sc s3 s4.
       query_variable (snd s) file_id (x_axis_variable (fst s)) = Some (x_id, n_x, x_t)
     \<and> query_optional (snd s) file_id (y_axis_variable (fst s)) = Some (y_id, n_y, y_t)
     \<and> query_optional (snd s) file_id (z_axis_variable (fst s)) = Some (z_id, n_z, z_t)
     \<and> read_axis (snd s) file_id x_t x_id n_x = Some x_axis
     \<and> read_optional_axis (snd s) file_id (y_axis_variable (fst s)) y_t y_id n_y x_t = Some y_axis
     \<and> read_optional_axis (snd s) file_id (z_axis_variable (fst s)) z_t z_id n_z x_t = Some z_axis
     \<and> read_time_axis (fst s) path files ord x_t s3 = (T_ok t_axis sc, s4)
     \<and> finish_metadata (fst s) path files n_x n_y n_z x_axis y_axis z_axis t_axis sc s4
           = Returned md s'"
  using assms unfolding parse_dataset_def
  apply (auto split: option.splits prod.splits time_result.splits)
  apply (intro exI conjI)
   apply assumption+
  done

lemma default_axis_size: "default_axis x_t = Some t \<Longrightarrow> va_size t = 1"
  by (auto simp: default_axis_def va_set_def va_new_def va_size_def split: if_splits)

lemma read_time_axis_ok:
  assumes "read_time_axis r path files ord x_t s3 = (T_ok (Some t) sc, s4)"
  shows "sum_list sc = va_size t
     \<and> (if t_axis_variable r = [] then sc = [1] else length sc = Suc (length files - 1))"
proof (cases "t_axis_variable r = []")
  case True
  then show ?thesis using assms default_axis_size[of x_t t]
    by (auto simp: read_time_axis_def)
next
  case False
  then obtain tmp where "assemble_time_axis (length files) tmp = T_ok (Some t) sc"
    using assms by (auto simp: read_time_axis_def split: prod.splits)
  from assemble_ok_shape[OF this] show ?thesis using False by auto
qed

lemma clear_handles_config:
  assumes "clear_handles (r, w) = (r', w')"
  shows "r' = r\<lparr>handles := []\<rparr>"
  using assms by (auto simp: clear_handles_def split: prod.splits)

lemma initialize_handles_config:
  assumes "initialize_handles files (r, w) = (r', w')"
  shows "\<exists>hs. r' = r\<lparr>handles := hs\<rparr>"
proof -
  obtain r1 w1 where c: "clear_handles (r, w) = (r1, w1)" by (cases "clear_handles (r, w)")
  then have "r1 = r\<lparr>handles := []\<rparr>" by (rule clear_handles_config)
  then show ?thesis using assms c by (auto simp: initialize_handles_def)
qed

lemma root_rank_parse_Returned:
  assumes "root_rank_parse fu ord s = Returned md s'" and "md \<noteq> []"
  shows "\<exists>path file0 others file_id hs w2.
       enumerate_files fu (fst s) = Some (path, file0 # others)
     \<and> parse_dataset path (file0 # others) ord file_id ((fst s)\<lparr>handles := hs\<rparr>, w2)
           = Returned md s'"
proof -
  from assms obtain path file0 others file_id w1 r2 w2 where
      e: "enumerate_files fu (fst s) = Some (path, file0 # others)"
      and i: "initialize_handles (file0 # others) (fst s, w1) = (r2, w2)"
      and p: "parse_dataset path (file0 # others) ord file_id
           (r2\<lparr>handles := AList.update file0 (Some Mutex, None) (handles r2)\<rparr>, w2)
           = Returned md s'"
    unfolding root_rank_parse_def
    by (auto split: option.splits prod.splits list.splits)
  from initialize_handles_config[OF i] obtain hs where "r2 = (fst s)\<lparr>handles := hs\<rparr>" by blast
  then have "r2\<lparr>handles := AList.update file0 (Some Mutex, None) (handles r2)\<rparr>
      = (fst s)\<lparr>handles := AList.update file0 (Some Mutex, None) hs\<rparr>"
    by simp
  then show ?thesis using e p by metis
qed

lemma whole_extent_of_list:
  "whole_extent_of n_x n_y n_z = [0, ulong_sub n_x 1, 0, ulong_sub n_y 1, 0, ulong_sub n_z 1]"
  by (simp add: whole_extent_of_def eval_nat_numeral)

lemma coordinates_bag_lookup:
  "map_of (coordinates_bag r x_axis y_axis z_axis t_axis) k =
     (if k = ''t'' then Some (MArray t_axis)
      else if k = ''z'' then Some (MArray z_axis)
      else if k = ''y'' then Some (MArray y_axis)
      else if k = ''x'' then Some (MArray x_axis)
      else if k = ''t_variable''
        then Some (MString [if z_axis_variable r = [] then ''t'' else z_axis_variable r])
      else if k = ''z_variable''
        then Some (MString [if z_axis_variable r = [] then ''z'' else z_axis_variable r])
      else if k = ''y_variable''
        then Some (MString [if z_axis_variable r = [] then ''y'' else z_axis_variable r])
      else if k = ''x_variable'' then Some (MString [x_axis_variable r])
      else None)"
  by (simp add: coordinates_bag_def md_insert_lookup)

lemma coordinates_bag_handles:
  "coordinates_bag (r\<lparr>handles := hs\<rparr>) x_axis y_axis z_axis t_axis
     = coordinates_bag r x_axis y_axis z_axis t_axis"
  by (simp add: coordinates_bag_def)

lemma read_axis_size:
  "read_axis w file_id a_t a_id n = Some (Some a) \<Longrightarrow> va_size a = n"
  by (auto simp: read_axis_def va_fill_def va_new_def va_size_def split: if_splits option.splits)

lemma read_optional_axis_size:
  assumes "read_optional_axis w file_id name a_t a_id n x_t = Some (Some a)"
    and "query_optional w file_id name = Some (a_id, n, a_t)"
  shows "va_size a = n \<and> (if name = [] then n = 1 else True)"
proof (cases "name = []")
  case True
  then show ?thesis using assms default_axis_size[of x_t a]
    by (auto simp: read_optional_axis_def query_optional_def)
next
  case False
  then show ?thesis using assms read_axis_size[of w file_id a_t a_id n a]
    by (auto simp: read_optional_axis_def)
qed

lemma metadata_phase_success:
  assumes "metadata (fst s) = []" and "get_output_metadata fu ord s = Returned md s'"
    and "md \<noteq> []"
  shows "\<exists>path files file_id w2 x_id n_x x_t y_id n_y y_t z_id n_z z_t x_axis y_axis z_axis
           t sc s3 s4 hs.
       files \<noteq> [] \<and> enumerate_files fu (fst s) = Some (path, files)
     \<and> query_variable w2 file_id (x_axis_variable (fst s)) = Some (x_id, n_x, x_t)
     \<and> query_optional w2 file_id (y_axis_variable (fst s)) = Some (y_id, n_y, y_t)
     \<and> query_optional w2 file_id (z_axis_variable (fst s)) = Some (z_id, n_z, z_t)
     \<and> read_axis w2 file_id x_t x_id n_x = Some x_axis
     \<and> read_optional_axis w2 file_id (y_axis_variable (fst s)) y_t y_id n_y x_t = Some y_axis
     \<and> read_optional_axis w2 file_id (z_axis_variable (fst s)) z_t z_id n_z x_t = Some z_axis
     \<and> read_time_axis ((fst s)\<lparr>handles := hs\<rparr>) path files ord x_t s3 = (T_ok (Some t) sc, s4)
     \<and> map_of md ''number_of_time_steps'' = Some (MULong [va_size t])
     \<and> map_of md ''step_count'' = Some (MULong sc)
     \<and> map_of md ''root'' = Some (MString [path])
     \<and> map_of md ''files'' = Some (MString files)
     \<and> map_of md ''coordinates'' = Some (MBag (coordinates_bag (fst s) x_axis y_axis z_axis (Some t)))
     \<and> map_of md ''whole_extent'' = Some (MULong (whole_extent_of n_x n_y n_z))"
proof -
  have "root_rank_parse fu ord s = Returned md s'"
    using assms(1,2) by (simp add: get_output_metadata_def)
  from root_rank_parse_Returned[OF this assms(3)] obtain path file0 others file_id hs w2 where
      e: "enumerate_files fu (fst s) = Some (path, file0 # others)"
      and p: "parse_dataset path (file0 # others) ord file_id ((fst s)\<lparr>handles := hs\<rparr>, w2)
           = Returned md s'"
    by blast
  from parse_dataset_Returned[OF p assms(3)]
  obtain x_id n_x x_t y_id n_y y_t z_id n_z z_t x_axis y_axis z_axis t_axis sc s3 s4 where
      q: "query_variable w2 file_id (x_axis_variable (fst s)) = Some (x_id, n_x, x_t)"
         "query_optional w2 file_id (y_axis_variable (fst s)) = Some (y_id, n_y, y_t)"
         "query_optional w2 file_id (z_axis_variable (fst s)) = Some (z_id, n_z, z_t)"
         "read_axis w2 file_id x_t x_id n_x = Some x_axis"
         "read_optional_axis w2 file_id (y_axis_variable (fst s)) y_t y_id n_y x_t = Some y_axis"
         "read_optional_axis w2 file_id (z_axis_variable (fst s)) z_t z_id n_z x_t = Some z_axis"
      and rt: "read_time_axis ((fst s)\<lparr>handles := hs\<rparr>) path (file0 # others) ord x_t s3
           = (T_ok t_axis sc, s4)"
      and f: "finish_metadata ((fst s)\<lparr>handles := hs\<rparr>) path (file0 # others) n_x n_y n_z
           x_axis y_axis z_axis t_axis sc s4 = Returned md s'"
    by auto
  from finish_metadata_Returned[OF f] obtain t where t: "t_axis = Some t"
      "map_of md ''number_of_time_steps'' = Some (MULong [va_size t])"
      "map_of md ''step_count'' = Some (MULong sc)"
      "map_of md ''root'' = Some (MString [path])"
      "map_of md ''files'' = Some (MString (file0 # others))"
      "map_of md ''coordinates''
         = Some (MBag (coordinates_bag ((fst s)\<lparr>handles := hs\<rparr>) x_axis y_axis z_axis t_axis))"
      "map_of md ''whole_extent'' = Some (MULong (whole_extent_of n_x n_y n_z))"
    by blast
  have ne: "file0 # others \<noteq> []" by simp
  show ?thesis
    apply (intro exI conjI)
                  apply (rule ne)
                 apply (rule e)
                apply (rule q(1))
               apply (rule q(2))
              apply (rule q(3))
             apply (rule q(4))
            apply (rule q(5))
           apply (rule q(6))
          apply (rule rt[unfolded t(1)])
         apply (rule t(2))
        apply (rule t(3))
       apply (rule t(4))
      apply (rule t(5))
     apply (rule t(6)[unfolded coordinates_bag_handles t(1)])
    apply (rule t(7))
    done
qed

subsection \<open>The handle cache\<close>

lemma clear_loop_disk: "nc_disk (snd (clear_loop es w)) = nc_disk w"
  by (induction es w rule: clear_loop.induct)
     (auto simp: delete_handle_def nc_close_def split: prod.splits option.splits)

lemma delete_handle_subset: "set (nc_table (delete_handle h w)) \<subseteq> set (nc_table w)"
  by (auto simp: delete_handle_def nc_close_def split: option.splits)

lemma clear_loop_subset: "set (nc_table (snd (clear_loop es w))) \<subseteq> set (nc_table w)"
proof (induction es w rule: clear_loop.induct)
  case (1 w)
  then show ?case by simp
next
  case (2 k m h es w)
  have "snd (clear_loop ((k, (m, h)) # es) w) = snd (clear_loop es (delete_handle h w))"
    by (simp split: prod.splits)
  then show ?case using 2 delete_handle_subset[of h w] by auto
qed

lemma delete_handle_closed:
  "m_handle h \<noteq> 0 \<Longrightarrow> m_handle h \<notin> fst ` set (nc_table (delete_handle (Some h) w))"
  by (auto simp: delete_handle_def nc_close_def)

lemma clear_loop_closed:
  assumes "(k, (m, Some h)) \<in> set es" and "m_handle h \<noteq> 0"
  shows "m_handle h \<notin> fst ` set (nc_table (snd (clear_loop es w)))"
  using assms
proof (induction es w rule: clear_loop.induct)
  case (1 w)
  then show ?case by simp
next
  case (2 k0 m0 h0 es w)
  have step: "snd (clear_loop ((k0, (m0, h0)) # es) w) = snd (clear_loop es (delete_handle h0 w))"
    by (simp split: prod.splits)
  show ?case
  proof (cases "(k, (m, Some h)) = (k0, (m0, h0))")
    case True
    then have "m_handle h \<notin> fst ` set (nc_table (delete_handle h0 w))"
      using delete_handle_closed[OF "2.prems"(2)] by auto
    then show ?thesis
      unfolding step using clear_loop_subset[of es "delete_handle h0 w"] by auto
  next
    case False
    then have "(k, (m, Some h)) \<in> set es" using "2.prems"(1) by auto
    then show ?thesis unfolding step using "2.IH" "2.prems"(2) by blast
  qed
qed

lemma set_modified_unfold:
  "set_modified (r, w) = (r\<lparr>metadata := [], handles := []\<rparr>, snd (clear_loop (handles r) w))"
  by (simp add: set_modified_def clear_cached_metadata_def clear_handles_def split: prod.splits)

subsection \<open>The loops of the execute phase\<close>

lemma mesh_var_loop_iff:
  "mesh_var_loop a b ii = (\<forall>j. ii \<le> j \<and> j < length a \<longrightarrow> a ! j = b ! j)"
proof (induction a b ii rule: mesh_var_loop.induct)
  case (1 a b ii)
  show ?case
  proof (cases "ii < length a")
    case False
    then show ?thesis by (subst mesh_var_loop.simps) auto
  next
    case True
    show ?thesis
    proof (cases "a ! ii = b ! ii")
      case False
      then show ?thesis using True by (subst mesh_var_loop.simps) auto
    next
      case eq: True
      have "mesh_var_loop a b ii = mesh_var_loop a b (Suc ii)"
        using True eq by (subst mesh_var_loop.simps) simp
      also have "\<dots> = (\<forall>j. Suc ii \<le> j \<and> j < length a \<longrightarrow> a ! j = b ! j)"
        using "1.IH"[OF True eq] .
      also have "\<dots> = (\<forall>j. ii \<le> j \<and> j < length a \<longrightarrow> a ! j = b ! j)"
        using eq by (metis Suc_leI le_neq_implies_less Suc_leD)
      finally show ?thesis .
    qed
  qed
qed

lemma is_mesh_var_eq: "is_mesh_var a b = (a = b)"
  by (auto simp: is_mesh_var_def mesh_var_loop_iff list_eq_iff_nth_eq)

lemma read_point_array_Skipped:
  "(\<exists>e. read_point_array w file_id atrs h name = Skipped e) = array_error w file_id atrs h name"
  by (auto simp: read_point_array_def array_error_def is_mesh_var_eq
      split: prod.splits option.splits)

lemma read_point_array_Read:
  "(read_point_array w file_id atrs h name = Read_array a) = (array_read w file_id atrs h name = Some a)"
  by (auto simp: read_point_array_def array_read_def is_mesh_var_eq
      split: prod.splits option.splits)

lemma read_point_array_Fell:
  assumes "md_get_bag atrs name = Some atts" and "md_get_type atts ''type'' = Some a_type"
    and "md_get_int atts ''id'' = Some a_id" and "md_get_strings atts ''dim_names'' = Some (fst h)"
    and "\<not> nc_dispatch a_type"
  shows "read_point_array w file_id atrs h name = Fell_through UnsupportedKind"
  using assms by (auto simp: read_point_array_def is_mesh_var_eq split: prod.splits)

lemma attach_arrays_names:
  "fst ` set (fst (attach_arrays step names (coll, errs)))
     = fst ` set coll \<union> {n \<in> set names. \<not> (\<exists>e. step n = Skipped e)}"
proof (induction names arbitrary: coll errs)
  case Nil
  then show ?case by simp
next
  case (Cons n names)
  show ?case
    by (cases "step n") (auto simp: Cons.IH ac_append_def)
qed

lemma attach_arrays_order:
  "map fst (fst (attach_arrays step names (coll, errs)))
     = map fst coll @ filter (\<lambda>n. \<forall>e. step n \<noteq> Skipped e) names"
proof (induction names arbitrary: coll errs)
  case Nil
  then show ?case by simp
next
  case (Cons n names)
  show ?case
    by (cases "step n") (simp_all add: Cons.IH ac_append_def)
qed

lemma attach_arrays_errs_mono:
  "set errs \<subseteq> set (snd (attach_arrays step names (coll, errs)))"
proof (induction names arbitrary: coll errs)
  case Nil
  then show ?case by simp
next
  case (Cons n names)
  show ?case
  proof (cases "step n")
    case (Skipped e)
    then show ?thesis using Cons.IH[of "errs @ [(n, e)]" coll] by auto
  next
    case (Read_array a)
    then show ?thesis using Cons.IH[of errs "ac_append n (Some a) coll"] by auto
  next
    case (Fell_through e)
    then show ?thesis using Cons.IH[of "errs @ [(n, e)]" "ac_append n None coll"] by auto
  qed
qed

lemma attach_arrays_logged:
  assumes "n \<in> set names" and "step n = Skipped e \<or> step n = Fell_through e"
  shows "(n, e) \<in> set (snd (attach_arrays step names (coll, errs)))"
  using assms
proof (induction names arbitrary: coll errs)
  case Nil
  then show ?case by simp
next
  case (Cons x names)
  show ?case
  proof (cases "x = n")
    case True
    then show ?thesis
      using Cons.prems(2) attach_arrays_errs_mono[of "errs @ [(n, e)]" step names]
      by auto
  next
    case False
    then have "n \<in> set names" using Cons.prems(1) by simp
    then show ?thesis using Cons.IH Cons.prems(2) by (cases "step x") auto
  qed
qed

lemma attach_arrays_null:
  assumes "n \<in> set names" and "step n = Fell_through e"
  shows "(n, None) \<in> set (fst (attach_arrays step names (coll, errs)))"
  using assms
proof (induction names arbitrary: coll errs)
  case Nil
  then show ?case by simp
next
  case (Cons x names)
  have keep: "set c \<subseteq> set (fst (attach_arrays step ns (c, es)))" for c ns es
  proof (induction ns arbitrary: c es)
    case Nil
    then show ?case by simp
  next
    case (Cons y ns)
    show ?case
    proof (cases "step y")
      case (Skipped e')
      then show ?thesis using Cons.IH[of c "es @ [(y, e')]"] by auto
    next
      case (Read_array a)
      then show ?thesis using Cons.IH[of "ac_append y (Some a) c" es] by (auto simp: ac_append_def)
    next
      case (Fell_through e')
      then show ?thesis using Cons.IH[of "ac_append y None c" "es @ [(y, e')]"]
        by (auto simp: ac_append_def)
    qed
  qed
  show ?case
  proof (cases "x = n")
    case True
    then show ?thesis
      using Cons.prems(2) keep[of "ac_append n None coll" names "errs @ [(n, e)]"]
      by (auto simp: ac_append_def)
  next
    case False
    then have "n \<in> set names" using Cons.prems(1) by simp
    then show ?thesis using Cons.IH Cons.prems(2) by (cases "step x") auto
  qed
qed

lemma map_filter_append:
  "List.map_filter f (xs @ ys) = List.map_filter f xs @ List.map_filter f ys"
  by (simp add: List.map_filter_def)

lemma attach_arrays_present:
  assumes "\<And>n a. (step n = Read_array a) = (rd n = Some a)"
  shows "present_arrays (fst (attach_arrays step names (coll, errs)))
     = present_arrays coll @ List.map_filter (\<lambda>n. map_option (Pair n) (rd n)) names"
proof (induction names arbitrary: coll errs)
  case Nil
  then show ?case by (simp add: List.map_filter_simps)
next
  case (Cons n names)
  show ?case
  proof (cases "step n")
    case (Skipped e)
    then have "rd n = None" using assms[of n] by (cases "rd n") auto
    then show ?thesis using Skipped Cons.IH by (simp add: List.map_filter_simps)
  next
    case (Read_array a)
    then have "rd n = Some a" using assms by simp
    then show ?thesis using Read_array Cons.IH
      by (simp add: List.map_filter_simps present_arrays_def ac_append_def map_filter_append)
  next
    case (Fell_through e)
    then have "rd n = None" using assms[of n] by (cases "rd n") auto
    then show ?thesis using Fell_through Cons.IH
      by (simp add: List.map_filter_simps present_arrays_def ac_append_def map_filter_append)
  qed
qed

lemma md_get_ulong_arrays:
  "md_get_ulong (md_insert ''arrays'' v request) ''time_step'' = md_get_ulong request ''time_step''"
  by (simp add: md_get_ulong_def md_insert_lookup)

lemma md_get_ulong_n_arrays:
  "md_get_ulong_n (md_insert ''arrays'' v request) ''extent'' n = md_get_ulong_n request ''extent'' n"
  by (simp add: md_get_ulong_n_def md_insert_lookup)

lemma md_get_strings_arrays:
  "md_get_strings (md_insert ''arrays'' (MString arrays) request) ''arrays'' = Some arrays"
  by (simp add: md_get_strings_def md_insert_lookup)

lemma exec_prelude_arrays:
  "exec_prelude s (md_insert ''arrays'' v request) = exec_prelude s request"
  unfolding exec_prelude_def md_get_ulong_arrays md_get_ulong_n_arrays ..

lemma execute_mesh:
  assumes "exec_prelude s request = (Inr c, s1)"
  shows "\<exists>m errs. execute s (md_insert ''arrays'' (MString arrays) request) = (Mesh m errs, s1)
     \<and> point_arrays m
         = fst (attach_arrays (read_point_array (snd s1) (c_file_id c) (c_atrs c) (c_hyperslab c))
                  arrays ([], []))
     \<and> set (snd (attach_arrays (read_point_array (snd s1) (c_file_id c) (c_atrs c) (c_hyperslab c))
                  arrays ([], []))) \<subseteq> set errs"
proof -
  let ?step = "read_point_array (snd s1) (c_file_id c) (c_atrs c) (c_hyperslab c)"
  let ?tstep = "read_time_var (snd s1) (c_file_id c) (c_atrs c) (c_hyperslab c)"
  let ?tv = "case md_get_strings (metadata (fst s)) ''time variables'' of None \<Rightarrow> [] | Some tv \<Rightarrow> tv"
  obtain pa errs where p: "attach_arrays ?step arrays ([], []) = (pa, errs)"
    by (cases "attach_arrays ?step arrays ([], [])")
  obtain ia errs' where i: "attach_arrays ?tstep ?tv ([], errs) = (ia, errs')"
    by (cases "attach_arrays ?tstep ?tv ([], errs)")
  have sub: "set errs \<subseteq> set errs'"
    using attach_arrays_errs_mono[of errs ?tstep ?tv "[]"] i by simp
  have "execute s (md_insert ''arrays'' (MString arrays) request)
      = (Mesh ((c_mesh c)\<lparr>point_arrays := pa, information_arrays := ia\<rparr>) errs', s1)"
    unfolding execute_def exec_prelude_arrays assms md_get_strings_arrays
    by (simp add: p i)
  then show ?thesis using p sub by auto
qed

subsection \<open>The example data set\<close>

text \<open>The definitions an evaluation unfolds, and the two phases run on the example: the
  metadata phase with the second task completing first, and execute for time step 3
  with five arrays requested.\<close>

lemmas ex_defs = ex_var_def ex_file_def ex_world_def ex_fu_def ex_reader_def
  new_teca_cf_reader_def ex_atts_def ex_md_def ex_post_def ex_request_def

lemmas nc_defs = nc_open_def nc_close_def nc_file_of_def nc_var_of_def nc_inq_dimid_def
  nc_inq_dim_def nc_inq_dimlen_def nc_inq_varid_def nc_inq_vartype_def nc_inq_nvars_def
  nc_inq_var_def nc_inq_attname_def nc_att_of_def nc_inq_att_def nc_get_att_text_def
  nc_get_vara_def

lemmas va_defs = va_new_def va_size_def va_fill_def va_append_def va_new_copy_def va_set_def

lemmas md_defs = md_insert_def md_get_bag_def md_get_array_def md_get_ulongs_def md_get_ulong_def
  md_get_ulong_n_def md_get_strings_def md_get_string_at_def md_get_string_def md_get_type_def
  md_get_int_def

lemmas cache_defs = delete_handle_def close_handles_def clear_handles_def initialize_handles_def
  close_handle_def get_handle_def clear_cached_metadata_def set_modified_def PATH_SEP_def

lemmas phase_defs = query_variable_def read_variable_def time_arrays_def assemble_time_axis_def
  enumerate_files_def query_optional_def enumerate_variables_def read_axis_def default_axis_def
  read_optional_axis_def read_time_axis_def coordinates_bag_def whole_extent_of_list
  finish_metadata_def parse_dataset_def root_rank_parse_def get_output_metadata_def
  returned_metadata_def att_string_def crtrim_def c_string_def NUL_def is_blank_def
  ulong_add_def ulong_sub_def ulong_mul_def append_loop.simps

lemmas exec_defs = locate_file_def locate_loop.simps ac_append_def is_mesh_var_eq
  add_time_dim_def add_space_dim_def mesh_dims_def read_point_array_def read_time_var_def
  exec_prelude_def execute_def

lemma upt_0_2: "[0..<2] = [0, 1]"
  by (simp add: upt_rec)

lemma upt_0_3: "[0..<3] = [0, 1, 2]"
  by (simp add: upt_rec)

lemma ex_phase:
  "get_output_metadata ex_fu [1, 0] (ex_reader, ex_world NC_FLOAT 2 True) = Returned ex_md ex_post"
  by (simp add: ex_defs phase_defs nc_defs md_defs va_defs cache_defs upt_0_2 upt_0_3)

lemmas ex2_defs = ex_ctx_def ex_post2_def ex_arrays_def ex_mesh_def
  time_axis_view_def mesh_axes_view_def coordinate_names_view_def

lemmas all_defs = ex_defs ex2_defs phase_defs exec_defs nc_defs md_defs va_defs cache_defs
  upt_0_2 upt_0_3

lemma ex_prelude: "exec_prelude ex_post ex_request = (Inr ex_ctx, ex_post2)"
  by (simp add: all_defs)

lemma ex_execute:
  "execute ex_post (md_insert ''arrays'' (MString ex_arrays) ex_request)
     = (Mesh ex_mesh
          [(''lbl'', UnsupportedKind), (''bad'', HyperslabReadFailed),
           (''ps'', DimensionMismatch), (''nope'', MetadataMissing)],
        ex_post2)"
  by (simp add: all_defs)

text \<open>When the second file of the example has no time variable, its task returns a
  null array and the phase dereferences it.\<close>

lemma metadata_phase_null_deref:
  "get_output_metadata ex_fu [1, 0] (ex_reader, ex_world NC_FLOAT 2 False) = Undefined_behaviour"
  by (simp add: all_defs)

text \<open>When the second file of the example has an empty time axis, the phase returns
  the step counts 3 and 0.\<close>

lemma metadata_phase_empty_last_file:
  "time_axis_view
     (returned_metadata (get_output_metadata ex_fu [1, 0] (ex_reader, ex_world NC_FLOAT 0 True)))
     = (Some [''a'', ''b''], Some [3, 0], Some 3, Some 3)"
  by (simp add: all_defs)

section \<open>The claims\<close>

subsection \<open>C1: step-to-file resolution\<close>

text \<open>
  C1 (as amended). For fewer than \<open>2 ^ 32\<close> files whose step counts sum to less than
  \<open>2 ^ 64\<close>, and a time step below that sum: the index found is the index of a file,
  the counts in front of that file sum to at most the time step, one count more exceeds
  it, and the offset is the time step less the counts in front of the file. When the
  time step is the last one and the last file has a step, the index is that of the last
  file and the offset is its count less one.
\<close>

theorem locate_file_resolves:
  assumes "length step_count < 2 ^ 32" and "sum_list step_count < 2 ^ 64"
    and "time_step < sum_list step_count"
  shows "fst (locate_file step_count time_step) < length step_count
     \<and> sum_list (take (fst (locate_file step_count time_step)) step_count) \<le> time_step
     \<and> time_step < sum_list (take (Suc (fst (locate_file step_count time_step))) step_count)
     \<and> snd (locate_file step_count time_step)
         = time_step - sum_list (take (fst (locate_file step_count time_step)) step_count)
     \<and> (time_step = sum_list step_count - 1 \<and> 0 < last step_count \<longrightarrow>
          locate_file step_count time_step = (length step_count - 1, last step_count - 1))"
proof -
  obtain k where k: "locate_file step_count time_step = (k, time_step - sum_list (take k step_count))"
      "k < length step_count" "sum_list (take k step_count) \<le> time_step"
      "time_step < sum_list (take (Suc k) step_count)"
    using locate_file_index[OF assms] by blast
  have last_part: "k = length step_count - 1 \<and> time_step - sum_list (take k step_count) = last step_count - 1"
    if h: "time_step = sum_list step_count - 1" "0 < last step_count"
  proof -
    have ne: "step_count \<noteq> []" using k(2) by auto
    have "sum_list (butlast step_count @ [last step_count])
            = sum_list (butlast step_count) + last step_count"
      by simp
    then have tot: "sum_list step_count = sum_list (butlast step_count) + last step_count"
      by (simp only: append_butlast_last_id[OF ne])
    have bl: "butlast step_count = take (length step_count - 1) step_count"
      by (simp add: butlast_conv_take)
    have "\<not> k < length step_count - 1"
    proof
      assume "k < length step_count - 1"
      then have "Suc k \<le> length step_count - 1" by simp
      then have "sum_list (take (Suc k) step_count) \<le> sum_list (butlast step_count)"
        unfolding bl by (rule sum_take_mono)
      then show False using k(4) h tot by simp
    qed
    then have keq: "k = length step_count - 1" using k(2) by simp
    then show ?thesis using h tot bl by simp
  qed
  show ?thesis using k last_part by auto
qed

theorem locate_file_resolves_witness:
  "length [3, 2 :: nat] < 2 ^ 32 \<and> sum_list [3, 2 :: nat] < 2 ^ 64 \<and> (4 :: nat) < sum_list [3, 2]
   \<and> (4 :: nat) = sum_list [3, 2] - 1 \<and> 0 < last [3, 2 :: nat]
   \<and> locate_file [3, 2] 4 = (1, 1)"
  using locate_file_resolves[of "[3, 2]" 4] by simp

text \<open>
  The claim as stated fails where the last file has no step: of two files with three
  and zero steps, the last step, step 2, is found in the first file (index 0, not the
  last index 1) at offset 2.
\<close>

theorem locate_file_trailing_empty_counterexample:
  "(2 :: nat) = sum_list [3, 0] - 1 \<and> length [3, 0 :: nat] - 1 = 1
   \<and> locate_file [3, 0] 2 = (0, 2)"
  by (simp add: locate_file_def ulong_add_def ulong_sub_def locate_loop.simps)

subsection \<open>C2: the names in the coordinates bag\<close>

text \<open>
  C2. On the example data set the default reader, whose y axis is \<open>lat\<close> and whose
  t axis is \<open>time\<close>, stores \<open>y\<close> under \<open>y_variable\<close> and \<open>t\<close> under
  \<open>t_variable\<close>: the names stored for y and t come from the z axis variable, not
  from the y and t axis variables.
\<close>

theorem metadata_names_default_config:
  "y_axis_variable ex_reader = ''lat'' \<and> t_axis_variable ex_reader = ''time''
   \<and> coordinate_names_view
        (returned_metadata (get_output_metadata ex_fu [1, 0] (ex_reader, ex_world NC_FLOAT 2 True)))
       = (Some ''lon'', Some ''y'', Some ''z'', Some ''t'')"
  unfolding ex_phase
  by (simp add: ex_defs returned_metadata_def coordinate_names_view_def md_defs)

text \<open>The names the coordinates bag holds, for every phase that returns a record.\<close>

theorem metadata_coordinate_names:
  assumes "metadata (fst s) = []" and "get_output_metadata fu ord s = Returned md s'"
    and "md \<noteq> []"
  shows "\<exists>coords. md_get_bag md ''coordinates'' = Some coords
     \<and> md_get_string coords ''x_variable'' = Some (x_axis_variable (fst s))
     \<and> md_get_string coords ''y_variable''
          = Some (if z_axis_variable (fst s) = [] then ''y'' else z_axis_variable (fst s))
     \<and> md_get_string coords ''z_variable''
          = Some (if z_axis_variable (fst s) = [] then ''z'' else z_axis_variable (fst s))
     \<and> md_get_string coords ''t_variable''
          = Some (if z_axis_variable (fst s) = [] then ''t'' else z_axis_variable (fst s))"
proof -
  from metadata_phase_success[OF assms]
  obtain x_axis y_axis z_axis t where
      l: "map_of md ''coordinates'' = Some (MBag (coordinates_bag (fst s) x_axis y_axis z_axis (Some t)))"
    by blast
  then have "md_get_bag md ''coordinates'' = Some (coordinates_bag (fst s) x_axis y_axis z_axis (Some t))"
    by (simp add: md_get_bag_def)
  then show ?thesis
    by (simp add: md_get_string_def md_get_string_at_def coordinates_bag_lookup)
qed

theorem metadata_coordinate_names_witness:
  "metadata (fst (ex_reader, ex_world NC_FLOAT 2 True)) = []
   \<and> get_output_metadata ex_fu [1, 0] (ex_reader, ex_world NC_FLOAT 2 True) = Returned ex_md ex_post
   \<and> ex_md \<noteq> []
   \<and> z_axis_variable ex_reader = []
   \<and> (\<exists>coords. md_get_bag ex_md ''coordinates'' = Some coords
        \<and> md_get_string coords ''x_variable'' = Some ''lon''
        \<and> md_get_string coords ''y_variable'' = Some ''y''
        \<and> md_get_string coords ''z_variable'' = Some ''z''
        \<and> md_get_string coords ''t_variable'' = Some ''t'')"
proof -
  have a: "metadata (fst (ex_reader, ex_world NC_FLOAT 2 True)) = []"
    by (simp add: ex_defs)
  have b: "ex_md \<noteq> []" by (simp add: ex_md_def)
  have c: "z_axis_variable ex_reader = []" "x_axis_variable ex_reader = ''lon''"
    by (simp_all add: ex_defs)
  from metadata_coordinate_names[OF a ex_phase b] obtain coords where
      r: "md_get_bag ex_md ''coordinates'' = Some coords"
         "md_get_string coords ''x_variable''
            = Some (x_axis_variable (fst (ex_reader, ex_world NC_FLOAT 2 True)))"
         "md_get_string coords ''y_variable''
            = Some (if z_axis_variable (fst (ex_reader, ex_world NC_FLOAT 2 True)) = [] then ''y''
                    else z_axis_variable (fst (ex_reader, ex_world NC_FLOAT 2 True)))"
         "md_get_string coords ''z_variable''
            = Some (if z_axis_variable (fst (ex_reader, ex_world NC_FLOAT 2 True)) = [] then ''z''
                    else z_axis_variable (fst (ex_reader, ex_world NC_FLOAT 2 True)))"
         "md_get_string coords ''t_variable''
            = Some (if z_axis_variable (fst (ex_reader, ex_world NC_FLOAT 2 True)) = [] then ''t''
                    else z_axis_variable (fst (ex_reader, ex_world NC_FLOAT 2 True)))"
    by blast
  have "md_get_string coords ''x_variable'' = Some ''lon''"
    "md_get_string coords ''y_variable'' = Some ''y''"
    "md_get_string coords ''z_variable'' = Some ''z''"
    "md_get_string coords ''t_variable'' = Some ''t''"
    using r(2-5) c by simp_all
  then show ?thesis using a ex_phase b c(1) r(1) by blast
qed

subsection \<open>C3: step counts, files and the time axis\<close>

text \<open>
  C3 (as amended). For every metadata phase that starts with nothing cached and returns
  a record: the step counts sum to the number of time steps, which is the length of the
  time array; with a time variable configured there is one step count per file, and
  without one the step counts are the list \<open>[1]\<close>.
\<close>

theorem metadata_step_counts:
  assumes "metadata (fst s) = []" and "get_output_metadata fu ord s = Returned md s'"
    and "md \<noteq> []"
  shows "\<exists>sc files coords t.
       md_get_ulongs md ''step_count'' = Some sc
     \<and> md_get_strings md ''files'' = Some files
     \<and> md_get_bag md ''coordinates'' = Some coords
     \<and> md_get_array coords ''t'' = Some t
     \<and> md_get_ulong md ''number_of_time_steps'' = Some (va_size t)
     \<and> sum_list sc = va_size t
     \<and> (if t_axis_variable (fst s) = [] then sc = [1] else length sc = length files)"
proof -
  from metadata_phase_success[OF assms]
  obtain path files x_t x_axis y_axis z_axis t sc s3 s4 hs where
      ne: "files \<noteq> []"
      and rt: "read_time_axis ((fst s)\<lparr>handles := hs\<rparr>) path files ord x_t s3 = (T_ok (Some t) sc, s4)"
      and l: "map_of md ''number_of_time_steps'' = Some (MULong [va_size t])"
         "map_of md ''step_count'' = Some (MULong sc)"
         "map_of md ''files'' = Some (MString files)"
         "map_of md ''coordinates'' = Some (MBag (coordinates_bag (fst s) x_axis y_axis z_axis (Some t)))"
    by blast
  from read_time_axis_ok[OF rt] have rel: "sum_list sc = va_size t"
      "if t_axis_variable (fst s) = [] then sc = [1] else length sc = Suc (length files - 1)"
    by simp_all
  have len: "Suc (length files - 1) = length files" using ne by (cases files) auto
  have "md_get_ulongs md ''step_count'' = Some sc
     \<and> md_get_strings md ''files'' = Some files
     \<and> md_get_bag md ''coordinates'' = Some (coordinates_bag (fst s) x_axis y_axis z_axis (Some t))
     \<and> md_get_array (coordinates_bag (fst s) x_axis y_axis z_axis (Some t)) ''t'' = Some t
     \<and> md_get_ulong md ''number_of_time_steps'' = Some (va_size t)
     \<and> sum_list sc = va_size t
     \<and> (if t_axis_variable (fst s) = [] then sc = [1] else length sc = length files)"
    using l rel len
    by (simp add: md_get_ulongs_def md_get_strings_def md_get_bag_def md_get_array_def
        md_get_ulong_def coordinates_bag_lookup)
  then show ?thesis by blast
qed

theorem metadata_step_counts_witness:
  "metadata (fst (ex_reader, ex_world NC_FLOAT 2 True)) = []
   \<and> get_output_metadata ex_fu [1, 0] (ex_reader, ex_world NC_FLOAT 2 True) = Returned ex_md ex_post
   \<and> ex_md \<noteq> []
   \<and> t_axis_variable ex_reader = ''time''
   \<and> time_axis_view ex_md = (Some [''a'', ''b''], Some [3, 2], Some 5, Some 5)
   \<and> (\<exists>sc files coords t.
         md_get_ulongs ex_md ''step_count'' = Some sc
       \<and> md_get_strings ex_md ''files'' = Some files
       \<and> md_get_bag ex_md ''coordinates'' = Some coords
       \<and> md_get_array coords ''t'' = Some t
       \<and> md_get_ulong ex_md ''number_of_time_steps'' = Some (va_size t)
       \<and> sum_list sc = va_size t
       \<and> length sc = length files)"
proof -
  have a: "metadata (fst (ex_reader, ex_world NC_FLOAT 2 True)) = []"
    by (simp add: ex_defs)
  have b: "ex_md \<noteq> []" by (simp add: ex_md_def)
  have c: "t_axis_variable ex_reader = ''time''" by (simp add: ex_defs)
  have v: "time_axis_view ex_md = (Some [''a'', ''b''], Some [3, 2], Some 5, Some 5)"
    by (simp add: time_axis_view_def ex_md_def md_defs va_defs)
  from metadata_step_counts[OF a ex_phase b] obtain sc files coords t where
      r: "md_get_ulongs ex_md ''step_count'' = Some sc"
         "md_get_strings ex_md ''files'' = Some files"
         "md_get_bag ex_md ''coordinates'' = Some coords"
         "md_get_array coords ''t'' = Some t"
         "md_get_ulong ex_md ''number_of_time_steps'' = Some (va_size t)"
         "sum_list sc = va_size t"
         "if t_axis_variable (fst (ex_reader, ex_world NC_FLOAT 2 True)) = [] then sc = [1]
          else length sc = length files"
    by blast
  have "length sc = length files" using r(7) c by simp
  then show ?thesis using a ex_phase b c v r(1-6) by blast
qed

text \<open>
  The claim as stated fails without a time variable: for the two files of the example
  the record lists both files and one step count.
\<close>

theorem metadata_step_counts_no_time_axis_counterexample:
  "time_axis_view
     (returned_metadata
        (get_output_metadata ex_fu [] (ex_reader\<lparr>t_axis_variable := []\<rparr>, ex_world NC_FLOAT 2 True)))
     = (Some [''a'', ''b''], Some [1], Some 1, Some 1)"
  by (simp add: all_defs)

subsection \<open>C4: the order of the time axis\<close>

text \<open>
  C4. Let \<open>rs\<close> be the results of the time-axis tasks by file index, and \<open>tmp\<close>
  the vector the worker pool gives: the indexed results in any order. The assembly does
  not depend on that order: it is the assembly of the results in file order. When every
  result is present and of the kind of the first, the time axis holds the concatenation
  of the arrays in file order and the step counts are their sizes in file order.
\<close>

theorem time_axis_in_file_order:
  assumes "mset tmp = mset (zip [0..<length rs] rs)"
  shows "assemble_time_axis (length rs) tmp = assemble_time_axis (length rs) (zip [0..<length rs] rs)
     \<and> (\<forall>as. rs = map Some as \<and> as \<noteq> [] \<and> (\<forall>a \<in> set as. va_kind a = va_kind (hd as)) \<longrightarrow>
           assemble_time_axis (length rs) tmp =
             T_ok (Some ((hd as)\<lparr>va_data := concat (map va_data as)\<rparr>)) (map va_size as))"
proof -
  have ta: "time_arrays tmp j = (if j < length rs then rs ! j else None)" for j
    using time_arrays_permuted[OF assms] .
  have tz: "time_arrays (zip [0..<length rs] rs) j = (if j < length rs then rs ! j else None)" for j
    using time_arrays_permuted[OF mset_zip_self] .
  have "time_arrays tmp = time_arrays (zip [0..<length rs] rs)"
    using ta tz by auto
  then have first: "assemble_time_axis (length rs) tmp
      = assemble_time_axis (length rs) (zip [0..<length rs] rs)"
    by (rule assemble_cong)
  have second: "assemble_time_axis (length rs) tmp =
             T_ok (Some ((hd as)\<lparr>va_data := concat (map va_data as)\<rparr>)) (map va_size as)"
    if h: "rs = map Some as" "as \<noteq> []" "\<forall>a \<in> set as. va_kind a = va_kind (hd as)" for as
  proof -
    have "\<forall>j. time_arrays tmp j = (if j < length as then Some (as ! j) else None)"
      using ta h(1) by simp
    then show ?thesis using assemble_all_present[OF h(2,3)] h(1) by simp
  qed
  show ?thesis using first second by blast
qed

theorem time_axis_in_file_order_witness:
  "mset [(1, Some ex_t1), (0, Some ex_t0)] = mset (zip [0..<length [Some ex_t0, Some ex_t1]] [Some ex_t0, Some ex_t1])
   \<and> assemble_time_axis 2 [(1, Some ex_t1), (0, Some ex_t0)]
       = T_ok (Some \<lparr>va_kind = NC_DOUBLE, va_data = [0, 1, 2, 3, 4]\<rparr>) [3, 2]"
proof -
  have p: "mset [(1::nat, Some ex_t1), (0, Some ex_t0)]
      = mset (zip [0..<length [Some ex_t0, Some ex_t1]] [Some ex_t0, Some ex_t1])"
    by simp
  have k: "[Some ex_t0, Some ex_t1] = map Some [ex_t0, ex_t1] \<and> [ex_t0, ex_t1] \<noteq> []
      \<and> (\<forall>a \<in> set [ex_t0, ex_t1]. va_kind a = va_kind (hd [ex_t0, ex_t1]))"
    by (simp add: ex_t0_def ex_t1_def)
  have "\<forall>as. [Some ex_t0, Some ex_t1] = map Some as \<and> as \<noteq> []
          \<and> (\<forall>a \<in> set as. va_kind a = va_kind (hd as)) \<longrightarrow>
        assemble_time_axis (length [Some ex_t0, Some ex_t1]) [(1, Some ex_t1), (0, Some ex_t0)] =
          T_ok (Some ((hd as)\<lparr>va_data := concat (map va_data as)\<rparr>)) (map va_size as)"
    using time_axis_in_file_order[OF p] by (rule conjunct2)
  then have "assemble_time_axis (length [Some ex_t0, Some ex_t1]) [(1, Some ex_t1), (0, Some ex_t0)] =
          T_ok (Some ((hd [ex_t0, ex_t1])\<lparr>va_data := concat (map va_data [ex_t0, ex_t1])\<rparr>))
            (map va_size [ex_t0, ex_t1])"
    using k by (elim allE[where x = "[ex_t0, ex_t1]"] impE) assumption+
  then have "assemble_time_axis 2 [(1, Some ex_t1), (0, Some ex_t0)]
       = T_ok (Some \<lparr>va_kind = NC_DOUBLE, va_data = [0, 1, 2, 3, 4]\<rparr>) [3, 2]"
    by (simp add: ex_t0_def ex_t1_def va_size_def numeral_2_eq_2 numeral_3_eq_3)
  then show ?thesis using p by simp
qed

subsection \<open>C5: per-array errors in execute\<close>

text \<open>
  C5. On the example data set, execute for time step 3 with the arrays \<open>tas\<close>, \<open>lbl\<close>,
  \<open>bad\<close>, \<open>ps\<close> and \<open>nope\<close> requested returns a mesh. Of the five only \<open>tas\<close> is
  read; \<open>bad\<close>, \<open>ps\<close> and \<open>nope\<close> meet the three per-array errors and are not attached.
  Yet the mesh carries two point arrays: \<open>tas\<close>, and an absent array under the name
  \<open>lbl\<close>, a variable whose type has no case in the dispatch. The mesh returned does not
  carry exactly the arrays that succeeded.
\<close>

theorem execute_carries_unread_array:
  "execute ex_post (md_insert ''arrays'' (MString ex_arrays) ex_request)
     = (Mesh ex_mesh
          [(''lbl'', UnsupportedKind), (''bad'', HyperslabReadFailed),
           (''ps'', DimensionMismatch), (''nope'', MetadataMissing)],
        ex_post2)
   \<and> point_arrays ex_mesh
       = [(''tas'', Some \<lparr>va_kind = NC_FLOAT, va_data = [0, 1]\<rparr>), (''lbl'', None)]
   \<and> map (array_read (snd ex_post2) (c_file_id ex_ctx) (c_atrs ex_ctx) (c_hyperslab ex_ctx))
         ex_arrays
       = [Some \<lparr>va_kind = NC_FLOAT, va_data = [0, 1]\<rparr>, None, None, None, None]
   \<and> map (array_error (snd ex_post2) (c_file_id ex_ctx) (c_atrs ex_ctx) (c_hyperslab ex_ctx))
         ex_arrays
       = [False, False, True, True, True]"
proof -
  have p: "point_arrays ex_mesh
       = [(''tas'', Some \<lparr>va_kind = NC_FLOAT, va_data = [0, 1]\<rparr>), (''lbl'', None)]"
    by (simp add: ex_mesh_def)
  have r: "map (array_read (snd ex_post2) (c_file_id ex_ctx) (c_atrs ex_ctx) (c_hyperslab ex_ctx))
         ex_arrays
       = [Some \<lparr>va_kind = NC_FLOAT, va_data = [0, 1]\<rparr>, None, None, None, None]"
    by (simp add: array_read_def all_defs)
  have e: "map (array_error (snd ex_post2) (c_file_id ex_ctx) (c_atrs ex_ctx) (c_hyperslab ex_ctx))
         ex_arrays
       = [False, False, True, True, True]"
    by (simp add: array_error_def all_defs)
  show ?thesis using ex_execute p r e by simp
qed

text \<open>
  What holds of every request once execute gets as far as its loops (the lookups in the
  cached metadata, the slices and the handle succeed, none of which looks at the
  requested arrays): a mesh is returned for every list of requested arrays. A requested
  array that meets one of the three per-array errors is not among the point arrays and
  its error is among those reported. The names of the point arrays are the requested
  names that meet none of the three errors, in the order requested, whether the array
  was read or not; the point arrays that carry an array are the requested arrays that
  were read.
\<close>

theorem execute_skips_failed_arrays:
  assumes "exec_prelude s request = (Inr c, s1)"
  shows "\<exists>m errs. execute s (md_insert ''arrays'' (MString arrays) request) = (Mesh m errs, s1)
     \<and> (\<forall>name \<in> set arrays.
           array_error (snd s1) (c_file_id c) (c_atrs c) (c_hyperslab c) name \<longrightarrow>
             name \<notin> fst ` set (point_arrays m) \<and> name \<in> fst ` set errs)
     \<and> map fst (point_arrays m)
         = filter (\<lambda>n. \<not> array_error (snd s1) (c_file_id c) (c_atrs c) (c_hyperslab c) n)
             arrays
     \<and> present_arrays (point_arrays m)
         = List.map_filter
             (\<lambda>n. map_option (Pair n)
                    (array_read (snd s1) (c_file_id c) (c_atrs c) (c_hyperslab c) n))
             arrays"
proof -
  let ?step = "read_point_array (snd s1) (c_file_id c) (c_atrs c) (c_hyperslab c)"
  from execute_mesh[OF assms, of arrays] obtain m errs where
      e: "execute s (md_insert ''arrays'' (MString arrays) request) = (Mesh m errs, s1)"
      and pa: "point_arrays m = fst (attach_arrays ?step arrays ([], []))"
      and er: "set (snd (attach_arrays ?step arrays ([], []))) \<subseteq> set errs"
    by blast
  have skipped: "name \<notin> fst ` set (point_arrays m) \<and> name \<in> fst ` set errs"
    if h: "name \<in> set arrays" "array_error (snd s1) (c_file_id c) (c_atrs c) (c_hyperslab c) name"
    for name
  proof -
    from h(2) obtain e where sk: "?step name = Skipped e"
      using read_point_array_Skipped[of "snd s1" "c_file_id c" "c_atrs c" "c_hyperslab c" name]
      by blast
    have "name \<notin> fst ` set (point_arrays m)"
      unfolding pa attach_arrays_names using sk by simp
    moreover have "(name, e) \<in> set errs"
      using attach_arrays_logged[OF h(1), of ?step e "[]" "[]"] sk er by blast
    ultimately show ?thesis by force
  qed
  have sk_iff: "(\<forall>e. ?step n \<noteq> Skipped e)
      = (\<not> array_error (snd s1) (c_file_id c) (c_atrs c) (c_hyperslab c) n)" for n
    using read_point_array_Skipped[of "snd s1" "c_file_id c" "c_atrs c" "c_hyperslab c" n]
    by blast
  have names: "map fst (point_arrays m)
         = filter (\<lambda>n. \<not> array_error (snd s1) (c_file_id c) (c_atrs c) (c_hyperslab c) n)
             arrays"
    unfolding pa attach_arrays_order sk_iff by simp
  have pres: "present_arrays (point_arrays m)
         = List.map_filter
             (\<lambda>n. map_option (Pair n)
                    (array_read (snd s1) (c_file_id c) (c_atrs c) (c_hyperslab c) n))
             arrays"
    unfolding pa
    using attach_arrays_present[of ?step
        "array_read (snd s1) (c_file_id c) (c_atrs c) (c_hyperslab c)" arrays "[]" "[]"]
      read_point_array_Read
    by (simp add: present_arrays_def List.map_filter_simps)
  show ?thesis using e skipped names pres by blast
qed

theorem execute_skips_failed_arrays_witness:
  "exec_prelude ex_post ex_request = (Inr ex_ctx, ex_post2)
   \<and> array_error (snd ex_post2) (c_file_id ex_ctx) (c_atrs ex_ctx) (c_hyperslab ex_ctx) ''bad''
   \<and> array_error (snd ex_post2) (c_file_id ex_ctx) (c_atrs ex_ctx) (c_hyperslab ex_ctx) ''ps''
   \<and> array_error (snd ex_post2) (c_file_id ex_ctx) (c_atrs ex_ctx) (c_hyperslab ex_ctx) ''nope''
   \<and> (\<exists>m errs.
         execute ex_post (md_insert ''arrays'' (MString ex_arrays) ex_request)
           = (Mesh m errs, ex_post2)
       \<and> ''bad'' \<notin> fst ` set (point_arrays m)
       \<and> ''ps'' \<notin> fst ` set (point_arrays m)
       \<and> ''nope'' \<notin> fst ` set (point_arrays m)
       \<and> map fst (point_arrays m) = [''tas'', ''lbl'']
       \<and> present_arrays (point_arrays m)
            = [(''tas'', \<lparr>va_kind = NC_FLOAT, va_data = [0, 1]\<rparr>)])"
proof -
  have e1: "array_error (snd ex_post2) (c_file_id ex_ctx) (c_atrs ex_ctx) (c_hyperslab ex_ctx) ''bad''"
    by (simp add: array_error_def all_defs)
  have e2: "array_error (snd ex_post2) (c_file_id ex_ctx) (c_atrs ex_ctx) (c_hyperslab ex_ctx) ''ps''"
    by (simp add: array_error_def all_defs)
  have e3: "array_error (snd ex_post2) (c_file_id ex_ctx) (c_atrs ex_ctx) (c_hyperslab ex_ctx) ''nope''"
    by (simp add: array_error_def all_defs)
  have fl: "filter (\<lambda>n. \<not> array_error (snd ex_post2) (c_file_id ex_ctx) (c_atrs ex_ctx)
                          (c_hyperslab ex_ctx) n) ex_arrays
          = [''tas'', ''lbl'']"
    by (simp add: array_error_def all_defs)
  have rd: "List.map_filter
             (\<lambda>n. map_option (Pair n)
                    (array_read (snd ex_post2) (c_file_id ex_ctx) (c_atrs ex_ctx) (c_hyperslab ex_ctx) n))
             ex_arrays
          = [(''tas'', \<lparr>va_kind = NC_FLOAT, va_data = [0, 1]\<rparr>)]"
    by (simp add: array_read_def all_defs List.map_filter_simps)
  have mem: "''bad'' \<in> set ex_arrays" "''ps'' \<in> set ex_arrays" "''nope'' \<in> set ex_arrays"
    by (simp_all add: ex_arrays_def)
  from execute_skips_failed_arrays[OF ex_prelude, of ex_arrays] obtain m errs where
      r: "execute ex_post (md_insert ''arrays'' (MString ex_arrays) ex_request)
            = (Mesh m errs, ex_post2)"
         "\<forall>name \<in> set ex_arrays.
             array_error (snd ex_post2) (c_file_id ex_ctx) (c_atrs ex_ctx) (c_hyperslab ex_ctx) name \<longrightarrow>
               name \<notin> fst ` set (point_arrays m) \<and> name \<in> fst ` set errs"
         "map fst (point_arrays m)
            = filter (\<lambda>n. \<not> array_error (snd ex_post2) (c_file_id ex_ctx) (c_atrs ex_ctx)
                          (c_hyperslab ex_ctx) n) ex_arrays"
         "present_arrays (point_arrays m)
            = List.map_filter
                (\<lambda>n. map_option (Pair n)
                       (array_read (snd ex_post2) (c_file_id ex_ctx) (c_atrs ex_ctx) (c_hyperslab ex_ctx) n))
                ex_arrays"
    by blast
  have n1: "''bad'' \<notin> fst ` set (point_arrays m)" using r(2) mem(1) e1 by blast
  have n2: "''ps'' \<notin> fst ` set (point_arrays m)" using r(2) mem(2) e2 by blast
  have n3: "''nope'' \<notin> fst ` set (point_arrays m)" using r(2) mem(3) e3 by blast
  have nm: "map fst (point_arrays m) = [''tas'', ''lbl'']" using r(3) fl by simp
  have p: "present_arrays (point_arrays m) = [(''tas'', \<lparr>va_kind = NC_FLOAT, va_data = [0, 1]\<rparr>)]"
    using r(4) rd by simp
  have found: "\<exists>m errs.
         execute ex_post (md_insert ''arrays'' (MString ex_arrays) ex_request)
           = (Mesh m errs, ex_post2)
       \<and> ''bad'' \<notin> fst ` set (point_arrays m)
       \<and> ''ps'' \<notin> fst ` set (point_arrays m)
       \<and> ''nope'' \<notin> fst ` set (point_arrays m)
       \<and> map fst (point_arrays m) = [''tas'', ''lbl'']
       \<and> present_arrays (point_arrays m)
            = [(''tas'', \<lparr>va_kind = NC_FLOAT, va_data = [0, 1]\<rparr>)]"
    using r(1) n1 n2 n3 nm p
    apply -
    apply (rule exI[of _ m])
    apply (rule exI[of _ errs])
    apply (intro conjI)
    apply assumption+
    done
  show ?thesis
    using ex_prelude e1 e2 e3 found
    apply -
    apply (intro conjI)
    apply assumption+
    done
qed

subsection \<open>C6: the whole extent\<close>

text \<open>
  C6. On the example data set with a \<open>lon\<close> variable of an integer type the phase
  returns a record whose whole extent is \<open>(0, 1, 0, 0, 0, 0)\<close> and whose x array and
  z array are absent: the dispatch on the type of the x axis reports the type and goes
  on, so there is no x length for the whole extent to agree with, and the z array of the
  axis that is not configured does not have length 1.
\<close>

theorem metadata_integer_axis_whole_extent:
  "mesh_axes_view
     (returned_metadata (get_output_metadata ex_fu [1, 0] (ex_reader, ex_world NC_INT 2 True)))
     = (Some [0, 1, 0, 0, 0, 0], None, Some \<lparr>va_kind = NC_FLOAT, va_data = [0]\<rparr>, None)"
  by (simp add: all_defs)

text \<open>
  Where the three spatial arrays are present the whole extent is as C6 says, in
  unsigned arithmetic, and an axis that is not configured has one element.
\<close>

theorem metadata_whole_extent:
  assumes "metadata (fst s) = []" and "get_output_metadata fu ord s = Returned md s'"
    and "md \<noteq> []"
  shows "\<exists>coords. md_get_bag md ''coordinates'' = Some coords
     \<and> (\<forall>xa ya za. md_get_array coords ''x'' = Some xa \<and> md_get_array coords ''y'' = Some ya
            \<and> md_get_array coords ''z'' = Some za \<longrightarrow>
          md_get_ulongs md ''whole_extent''
            = Some [0, ulong_sub (va_size xa) 1, 0, ulong_sub (va_size ya) 1,
                    0, ulong_sub (va_size za) 1]
          \<and> (if y_axis_variable (fst s) = [] then va_size ya = 1 else True)
          \<and> (if z_axis_variable (fst s) = [] then va_size za = 1 else True))"
proof -
  from metadata_phase_success[OF assms]
  obtain file_id w2 x_id n_x x_t y_id n_y y_t z_id n_z z_t x_axis y_axis z_axis t where
      q: "query_optional w2 file_id (y_axis_variable (fst s)) = Some (y_id, n_y, y_t)"
         "query_optional w2 file_id (z_axis_variable (fst s)) = Some (z_id, n_z, z_t)"
         "read_axis w2 file_id x_t x_id n_x = Some x_axis"
         "read_optional_axis w2 file_id (y_axis_variable (fst s)) y_t y_id n_y x_t = Some y_axis"
         "read_optional_axis w2 file_id (z_axis_variable (fst s)) z_t z_id n_z x_t = Some z_axis"
      and l: "map_of md ''coordinates'' = Some (MBag (coordinates_bag (fst s) x_axis y_axis z_axis (Some t)))"
         "map_of md ''whole_extent'' = Some (MULong (whole_extent_of n_x n_y n_z))"
    by blast
  let ?c = "coordinates_bag (fst s) x_axis y_axis z_axis (Some t)"
  have c: "md_get_bag md ''coordinates'' = Some ?c" using l(1) by (simp add: md_get_bag_def)
  have main: "md_get_ulongs md ''whole_extent''
            = Some [0, ulong_sub (va_size xa) 1, 0, ulong_sub (va_size ya) 1,
                    0, ulong_sub (va_size za) 1]
          \<and> (if y_axis_variable (fst s) = [] then va_size ya = 1 else True)
          \<and> (if z_axis_variable (fst s) = [] then va_size za = 1 else True)"
    if h: "md_get_array ?c ''x'' = Some xa" "md_get_array ?c ''y'' = Some ya"
      "md_get_array ?c ''z'' = Some za" for xa ya za
  proof -
    have ax: "x_axis = Some xa" "y_axis = Some ya" "z_axis = Some za"
      using h by (simp_all add: md_get_array_def coordinates_bag_lookup)
    have sx: "va_size xa = n_x" using q(3) ax(1) by (simp add: read_axis_size)
    have sy: "va_size ya = n_y \<and> (if y_axis_variable (fst s) = [] then n_y = 1 else True)"
      using read_optional_axis_size[OF q(4)[unfolded ax(2)] q(1)] .
    have sz: "va_size za = n_z \<and> (if z_axis_variable (fst s) = [] then n_z = 1 else True)"
      using read_optional_axis_size[OF q(5)[unfolded ax(3)] q(2)] .
    show ?thesis using l(2) sx sy sz
      by (auto simp: md_get_ulongs_def whole_extent_of_list split: if_splits)
  qed
  show ?thesis using c main by blast
qed

theorem metadata_whole_extent_witness:
  "metadata (fst (ex_reader, ex_world NC_FLOAT 2 True)) = []
   \<and> get_output_metadata ex_fu [1, 0] (ex_reader, ex_world NC_FLOAT 2 True) = Returned ex_md ex_post
   \<and> ex_md \<noteq> []
   \<and> z_axis_variable ex_reader = []
   \<and> mesh_axes_view ex_md
       = (Some [0, 1, 0, 0, 0, 0], Some \<lparr>va_kind = NC_FLOAT, va_data = [0, 1]\<rparr>,
          Some \<lparr>va_kind = NC_FLOAT, va_data = [0]\<rparr>, Some \<lparr>va_kind = NC_FLOAT, va_data = [0]\<rparr>)
   \<and> md_get_ulongs ex_md ''whole_extent''
       = Some [0, ulong_sub 2 1, 0, ulong_sub 1 1, 0, ulong_sub 1 1]"
proof -
  have a: "metadata (fst (ex_reader, ex_world NC_FLOAT 2 True)) = []"
    by (simp add: ex_defs)
  have b: "ex_md \<noteq> []" by (simp add: ex_md_def)
  have z: "z_axis_variable ex_reader = []" by (simp add: ex_defs)
  have v: "mesh_axes_view ex_md
       = (Some [0, 1, 0, 0, 0, 0], Some \<lparr>va_kind = NC_FLOAT, va_data = [0, 1]\<rparr>,
          Some \<lparr>va_kind = NC_FLOAT, va_data = [0]\<rparr>, Some \<lparr>va_kind = NC_FLOAT, va_data = [0]\<rparr>)"
    by (simp add: mesh_axes_view_def ex_md_def md_defs)
  from metadata_whole_extent[OF a ex_phase b] obtain coords where
      c: "md_get_bag ex_md ''coordinates'' = Some coords"
      and q: "\<forall>xa ya za. md_get_array coords ''x'' = Some xa \<and> md_get_array coords ''y'' = Some ya
            \<and> md_get_array coords ''z'' = Some za \<longrightarrow>
          md_get_ulongs ex_md ''whole_extent''
            = Some [0, ulong_sub (va_size xa) 1, 0, ulong_sub (va_size ya) 1,
                    0, ulong_sub (va_size za) 1]
          \<and> (if y_axis_variable (fst (ex_reader, ex_world NC_FLOAT 2 True)) = []
              then va_size ya = 1 else True)
          \<and> (if z_axis_variable (fst (ex_reader, ex_world NC_FLOAT 2 True)) = []
              then va_size za = 1 else True)"
    by blast
  have cx: "coords = the (md_get_bag ex_md ''coordinates'')" using c by simp
  have x: "md_get_array coords ''x'' = Some \<lparr>va_kind = NC_FLOAT, va_data = [0, 1]\<rparr>"
    and y: "md_get_array coords ''y'' = Some \<lparr>va_kind = NC_FLOAT, va_data = [0]\<rparr>"
    unfolding cx by (simp_all add: ex_md_def md_defs)
  have zz: "md_get_array coords ''z'' = Some \<lparr>va_kind = NC_FLOAT, va_data = [0]\<rparr>"
    unfolding cx by (simp add: ex_md_def md_defs)
  have "md_get_ulongs ex_md ''whole_extent''
            = Some [0, ulong_sub (va_size \<lparr>va_kind = NC_FLOAT, va_data = [0, 1]\<rparr>) 1,
                    0, ulong_sub (va_size \<lparr>va_kind = NC_FLOAT, va_data = [0]\<rparr>) 1,
                    0, ulong_sub (va_size \<lparr>va_kind = NC_FLOAT, va_data = [0]\<rparr>) 1]"
    using q[rule_format, of "\<lparr>va_kind = NC_FLOAT, va_data = [0, 1]\<rparr>"
        "\<lparr>va_kind = NC_FLOAT, va_data = [0]\<rparr>" "\<lparr>va_kind = NC_FLOAT, va_data = [0]\<rparr>"] x y zz
    by blast
  then have w: "md_get_ulongs ex_md ''whole_extent''
       = Some [0, ulong_sub 2 1, 0, ulong_sub 1 1, 0, ulong_sub 1 1]"
    by (simp add: va_size_def numeral_2_eq_2)
  show ?thesis using a ex_phase b z v w by blast
qed

subsection \<open>C7: character attributes are trimmed\<close>

text \<open>
  C7. The string stored for a character attribute is not the right trim of its text
  when the text is all blanks: for the text of one blank the stored string is that
  blank, and the right trim is empty; the loop over the attributes of a variable stores
  the blank in the attribute bag. The loop of \<open>crtrim\<close> stops at index 0 without
  overwriting the character there. For a text without NUL that is not all blanks the
  stored string is the right trim (\<open>att_string_right_trim\<close>).
\<close>

theorem att_string_lone_blank:
  "att_string '' '' = '' '' \<and> right_trim '' '' = []
   \<and> read_atts ex_blank_world 1 0 [0] [] = Some [(''pad'', MString ['' ''])]"
  by (simp add: att_string_def crtrim_def c_string_def NUL_def is_blank_def right_trim_def
      ex_blank_world_def ex_var_def nc_defs md_insert_def)

subsection \<open>C8: a change of configuration\<close>

text \<open>
  C8. \<open>set_modified\<close>, which every property setter calls, leaves the cached metadata
  empty and the handle map empty, changes no configuration property, and closes in the
  library every handle the map held (a handle other than \<open>0\<close>, the value that stands
  for no file); it opens nothing and leaves the files on disk alone. With the metadata
  empty, the next metadata call does not return a cached record: it is the parse of the
  root rank, which reads the configuration.
\<close>

theorem set_modified_clears:
  "metadata (fst (set_modified (r, w))) = []
   \<and> handles (fst (set_modified (r, w))) = []
   \<and> files_regex (fst (set_modified (r, w))) = files_regex r
   \<and> file_name (fst (set_modified (r, w))) = file_name r
   \<and> x_axis_variable (fst (set_modified (r, w))) = x_axis_variable r
   \<and> y_axis_variable (fst (set_modified (r, w))) = y_axis_variable r
   \<and> z_axis_variable (fst (set_modified (r, w))) = z_axis_variable r
   \<and> t_axis_variable (fst (set_modified (r, w))) = t_axis_variable r
   \<and> thread_pool_size (fst (set_modified (r, w))) = thread_pool_size r
   \<and> nc_disk (snd (set_modified (r, w))) = nc_disk w
   \<and> set (nc_table (snd (set_modified (r, w)))) \<subseteq> set (nc_table w)
   \<and> (\<forall>k m h. (k, (m, Some h)) \<in> set (handles r) \<and> m_handle h \<noteq> 0 \<longrightarrow>
          m_handle h \<notin> fst ` set (nc_table (snd (set_modified (r, w)))))
   \<and> get_output_metadata fu ord (set_modified (r, w)) = root_rank_parse fu ord (set_modified (r, w))"
proof -
  have c: "\<forall>k m h. (k, (m, Some h)) \<in> set (handles r) \<and> m_handle h \<noteq> 0 \<longrightarrow>
          m_handle h \<notin> fst ` set (nc_table (snd (clear_loop (handles r) w)))"
    using clear_loop_closed by blast
  show ?thesis
    unfolding set_modified_unfold
    using c clear_loop_subset[of "handles r" w]
    by (simp add: clear_loop_disk get_output_metadata_def)
qed

theorem set_modified_clears_witness:
  "(''b'', (Some Mutex, Some \<lparr>m_handle = 2\<rparr>)) \<in> set (handles (fst ex_post2))
   \<and> m_handle \<lparr>m_handle = 2\<rparr> \<noteq> 0
   \<and> 2 \<in> fst ` set (nc_table (snd ex_post2))
   \<and> metadata (fst ex_post2) = ex_md
   \<and> set_modified ex_post2
        = (ex_reader, (ex_world NC_FLOAT 2 True)\<lparr>nc_table := [(1, ex_file NC_FLOAT 3 True)]\<rparr>)
   \<and> 2 \<notin> fst ` set (nc_table (snd (set_modified (fst ex_post2, snd ex_post2))))
   \<and> metadata (fst (set_modified (fst ex_post2, snd ex_post2))) = []
   \<and> handles (fst (set_modified (fst ex_post2, snd ex_post2))) = []"
proof -
  have h1: "(''b'', (Some Mutex, Some \<lparr>m_handle = 2\<rparr>)) \<in> set (handles (fst ex_post2))"
    by (simp add: ex_post2_def)
  have h2: "m_handle \<lparr>m_handle = 2\<rparr> \<noteq> 0" by simp
  have h3: "2 \<in> fst ` set (nc_table (snd ex_post2))" by (simp add: ex_post2_def)
  have h4: "metadata (fst ex_post2) = ex_md" by (simp add: ex_post2_def ex_post_def)
  have h5: "set_modified ex_post2
        = (ex_reader, (ex_world NC_FLOAT 2 True)\<lparr>nc_table := [(1, ex_file NC_FLOAT 3 True)]\<rparr>)"
    by (simp add: ex_post2_def ex_post_def ex_reader_def new_teca_cf_reader_def ex_world_def
        cache_defs nc_close_def)
  note t = set_modified_clears[of "fst ex_post2" "snd ex_post2" ex_fu "[]"]
  have q: "\<forall>k m h. (k, (m, Some h)) \<in> set (handles (fst ex_post2)) \<and> m_handle h \<noteq> 0 \<longrightarrow>
          m_handle h \<notin> fst ` set (nc_table (snd (set_modified (fst ex_post2, snd ex_post2))))"
    using t by (elim conjE)
  have "m_handle \<lparr>m_handle = 2\<rparr>
          \<notin> fst ` set (nc_table (snd (set_modified (fst ex_post2, snd ex_post2))))"
    using q[rule_format, of "''b''" "Some Mutex" "\<lparr>m_handle = 2\<rparr>"] h1 h2 by blast
  then have c: "2 \<notin> fst ` set (nc_table (snd (set_modified (fst ex_post2, snd ex_post2))))"
    by simp
  have m: "metadata (fst (set_modified (fst ex_post2, snd ex_post2))) = []"
    and h: "handles (fst (set_modified (fst ex_post2, snd ex_post2))) = []"
    using t by simp_all
  show ?thesis using h1 h2 h3 h4 h5 c m h by blast
qed

subsection \<open>C9: an absent time array of a later file\<close>

text \<open>
  C9. When the result of a file \<open>i\<close> other than the first is absent, the assembly
  does not take the error branch (that branch is taken exactly when the result of the
  first file is absent) and gives no time axis; when the results in front of \<open>i\<close>
  are present and of the kind of the first, it dereferences the null pointer.
\<close>

theorem time_axis_absent_results:
  assumes "0 < i" and "i < n_files" and "time_arrays tmp i = None"
  shows "(assemble_time_axis n_files tmp = T_failed) = (time_arrays tmp 0 = None)
     \<and> (\<forall>t_axis step_count. assemble_time_axis n_files tmp \<noteq> T_ok t_axis step_count)
     \<and> (\<forall>a0. time_arrays tmp 0 = Some a0
            \<and> (\<forall>j. 0 < j \<and> j < i \<longrightarrow> (\<exists>a. time_arrays tmp j = Some a \<and> va_kind a = va_kind a0))
          \<longrightarrow> assemble_time_axis n_files tmp = T_null_deref)"
proof -
  have a: "(assemble_time_axis n_files tmp = T_failed) = (time_arrays tmp 0 = None)"
    by (auto simp: assemble_time_axis_def append_loop_not_failed split: option.splits)
  have b: "assemble_time_axis n_files tmp \<noteq> T_ok t_axis step_count" for t_axis step_count
    using append_loop_absent[of 1 i n_files tmp] assms
    by (auto simp: assemble_time_axis_def split: option.splits)
  have c: "assemble_time_axis n_files tmp = T_null_deref"
    if "time_arrays tmp 0 = Some a0"
      "\<forall>j. 0 < j \<and> j < i \<longrightarrow> (\<exists>a. time_arrays tmp j = Some a \<and> va_kind a = va_kind a0)" for a0
  proof -
    have "\<forall>j. 1 \<le> j \<and> j < i \<longrightarrow> (\<exists>a. time_arrays tmp j = Some a \<and> va_kind a = va_kind a0)"
      using that(2) by auto
    then have "append_loop tmp n_files 1 a0 [va_size a0] = T_null_deref"
      using append_loop_null_deref[of 1 i n_files tmp a0] assms by auto
    then show ?thesis using that(1) by (simp add: assemble_time_axis_def)
  qed
  show ?thesis using a b c by blast
qed

theorem time_axis_absent_results_witness:
  "(0::nat) < 1 \<and> (1::nat) < 2 \<and> time_arrays [(0, Some ex_t0), (1, None)] 1 = None
   \<and> time_arrays [(0, Some ex_t0), (1, None)] 0 = Some ex_t0
   \<and> assemble_time_axis 2 [(0, Some ex_t0), (1, None)] = T_null_deref
   \<and> assemble_time_axis 2 [(0, None), (1, Some ex_t1)] = T_failed"
proof -
  have h: "time_arrays [(0, Some ex_t0), (1, None)] 1 = None" by (simp add: time_arrays_def)
  have h0: "time_arrays [(0, Some ex_t0), (1, None)] 0 = Some ex_t0" by (simp add: time_arrays_def)
  have f: "assemble_time_axis 2 [(0, None), (1, Some ex_t1)] = T_failed"
    by (simp add: assemble_time_axis_def time_arrays_def)
  have v: "\<forall>j. 0 < j \<and> j < (1::nat) \<longrightarrow>
      (\<exists>a. time_arrays [(0, Some ex_t0), (1, None)] j = Some a \<and> va_kind a = va_kind ex_t0)"
    by simp
  have lt: "(0::nat) < 1" "(1::nat) < 2" by simp_all
  have "\<forall>a0. time_arrays [(0, Some ex_t0), (1, None)] 0 = Some a0
            \<and> (\<forall>j. 0 < j \<and> j < 1 \<longrightarrow>
                 (\<exists>a. time_arrays [(0, Some ex_t0), (1, None)] j = Some a \<and> va_kind a = va_kind a0))
          \<longrightarrow> assemble_time_axis 2 [(0, Some ex_t0), (1, None)] = T_null_deref"
    using time_axis_absent_results[OF lt h] by blast
  then have "assemble_time_axis 2 [(0, Some ex_t0), (1, None)] = T_null_deref"
    using h0 v by blast
  then show ?thesis using h h0 f by simp
qed

subsection \<open>C10: a type code outside the dispatch\<close>

text \<open>
  C10. A requested array whose attributes are found and whose dimension names are those
  of the mesh, but whose recorded type code has no case in the dispatch, has the error
  reported and is attached all the same: the point arrays hold an entry with a null
  array under its name.
\<close>

theorem execute_attaches_null_array:
  assumes "exec_prelude s request = (Inr c, s1)"
    and "name \<in> set arrays"
    and "md_get_bag (c_atrs c) name = Some atts"
    and "md_get_type atts ''type'' = Some a_type"
    and "md_get_int atts ''id'' = Some a_id"
    and "md_get_strings atts ''dim_names'' = Some (fst (c_hyperslab c))"
    and "\<not> nc_dispatch a_type"
  shows "\<exists>m errs. execute s (md_insert ''arrays'' (MString arrays) request) = (Mesh m errs, s1)
     \<and> (name, None) \<in> set (point_arrays m)
     \<and> (name, UnsupportedKind) \<in> set errs"
proof -
  let ?step = "read_point_array (snd s1) (c_file_id c) (c_atrs c) (c_hyperslab c)"
  from execute_mesh[OF assms(1), of arrays] obtain m errs where
      e: "execute s (md_insert ''arrays'' (MString arrays) request) = (Mesh m errs, s1)"
      and pa: "point_arrays m = fst (attach_arrays ?step arrays ([], []))"
      and er: "set (snd (attach_arrays ?step arrays ([], []))) \<subseteq> set errs"
    by blast
  have f: "?step name = Fell_through UnsupportedKind"
    using read_point_array_Fell[OF assms(3-7)] .
  have "(name, None) \<in> set (point_arrays m)"
    unfolding pa
    using attach_arrays_null[of name arrays ?step UnsupportedKind "[]" "[]"] assms(2) f by simp
  moreover have "(name, UnsupportedKind) \<in> set errs"
    using attach_arrays_logged[OF assms(2), of ?step UnsupportedKind "[]" "[]"] f er by blast
  ultimately show ?thesis using e by blast
qed

theorem execute_attaches_null_array_witness:
  "exec_prelude ex_post ex_request = (Inr ex_ctx, ex_post2)
   \<and> ''lbl'' \<in> set ex_arrays
   \<and> md_get_bag (c_atrs ex_ctx) ''lbl''
        = Some (ex_atts 4 [3, 1, 2] [''time'', ''lat'', ''lon''] NC_STRING)
   \<and> md_get_type (ex_atts 4 [3, 1, 2] [''time'', ''lat'', ''lon''] NC_STRING) ''type'' = Some NC_STRING
   \<and> md_get_int (ex_atts 4 [3, 1, 2] [''time'', ''lat'', ''lon''] NC_STRING) ''id'' = Some 4
   \<and> md_get_strings (ex_atts 4 [3, 1, 2] [''time'', ''lat'', ''lon''] NC_STRING) ''dim_names''
        = Some (fst (c_hyperslab ex_ctx))
   \<and> \<not> nc_dispatch NC_STRING
   \<and> (\<exists>m errs.
         execute ex_post (md_insert ''arrays'' (MString ex_arrays) ex_request)
           = (Mesh m errs, ex_post2)
       \<and> (''lbl'', None) \<in> set (point_arrays m)
       \<and> (''lbl'', UnsupportedKind) \<in> set errs)"
proof -
  let ?atts = "ex_atts 4 [3, 1, 2] [''time'', ''lat'', ''lon''] NC_STRING"
  have h1: "''lbl'' \<in> set ex_arrays" by (simp add: ex_arrays_def)
  have h2: "md_get_bag (c_atrs ex_ctx) ''lbl'' = Some ?atts"
    by (simp add: ex_ctx_def ex_md_def md_defs)
  have h3: "md_get_type ?atts ''type'' = Some NC_STRING" by (simp add: ex_atts_def md_defs)
  have h4: "md_get_int ?atts ''id'' = Some 4" by (simp add: ex_atts_def md_defs)
  have h5: "md_get_strings ?atts ''dim_names'' = Some (fst (c_hyperslab ex_ctx))"
    by (simp add: ex_atts_def ex_ctx_def md_defs)
  have h6: "\<not> nc_dispatch NC_STRING" by simp
  from execute_attaches_null_array[OF ex_prelude h1 h2 h3 h4 h5 h6]
  show ?thesis using ex_prelude h1 h2 h3 h4 h5 h6 by blast
qed

end
